theory Spec2Isabelle
  imports Complex_Main
begin

section \<open>Numbers\<close>

text \<open>
  The orbit integrator of \<^verbatim>\<open>src/physics.ts\<close>. A JavaScript number is a finite number or
  one of the three special values. The arithmetic of finite numbers is exact here: there
  is no rounding and no overflow, so a special value can only come from a division by
  zero or from another special value. The operations on the special values are those of
  IEEE 754, as JavaScript has them. The two zeros are one value; a quotient by zero takes
  the divisor as \<open>+0\<close>, which is what every divisor of this program is when it is zero (a
  product of square roots).
\<close>

datatype jsnum = Num real | PInf | NInf | NaN

instantiation jsnum :: "{zero, one, plus, uminus, minus, times, inverse, ord}"
begin

definition zero_jsnum :: jsnum where
  "zero_jsnum = Num 0"

definition one_jsnum :: jsnum where
  "one_jsnum = Num 1"

fun plus_jsnum :: "jsnum \<Rightarrow> jsnum \<Rightarrow> jsnum" where
  "plus_jsnum NaN b = NaN"
| "plus_jsnum a NaN = NaN"
| "plus_jsnum (Num a) (Num b) = Num (a + b)"
| "plus_jsnum PInf NInf = NaN"
| "plus_jsnum NInf PInf = NaN"
| "plus_jsnum PInf b = PInf"
| "plus_jsnum a PInf = PInf"
| "plus_jsnum NInf b = NInf"
| "plus_jsnum a NInf = NInf"

fun uminus_jsnum :: "jsnum \<Rightarrow> jsnum" where
  "uminus_jsnum (Num a) = Num (- a)"
| "uminus_jsnum PInf = NInf"
| "uminus_jsnum NInf = PInf"
| "uminus_jsnum NaN = NaN"

definition minus_jsnum :: "jsnum \<Rightarrow> jsnum \<Rightarrow> jsnum" where
  "minus_jsnum a b = a + (- b)"

fun times_jsnum :: "jsnum \<Rightarrow> jsnum \<Rightarrow> jsnum" where
  "times_jsnum NaN b = NaN"
| "times_jsnum a NaN = NaN"
| "times_jsnum (Num a) (Num b) = Num (a * b)"
| "times_jsnum (Num a) PInf = (if 0 < a then PInf else if a < 0 then NInf else NaN)"
| "times_jsnum (Num a) NInf = (if 0 < a then NInf else if a < 0 then PInf else NaN)"
| "times_jsnum PInf (Num b) = (if 0 < b then PInf else if b < 0 then NInf else NaN)"
| "times_jsnum NInf (Num b) = (if 0 < b then NInf else if b < 0 then PInf else NaN)"
| "times_jsnum PInf PInf = PInf"
| "times_jsnum PInf NInf = NInf"
| "times_jsnum NInf PInf = NInf"
| "times_jsnum NInf NInf = PInf"

fun divide_jsnum :: "jsnum \<Rightarrow> jsnum \<Rightarrow> jsnum" where
  "divide_jsnum NaN b = NaN"
| "divide_jsnum a NaN = NaN"
| "divide_jsnum (Num a) (Num b) =
     (if b = 0 then (if 0 < a then PInf else if a < 0 then NInf else NaN) else Num (a / b))"
| "divide_jsnum (Num a) PInf = Num 0"
| "divide_jsnum (Num a) NInf = Num 0"
| "divide_jsnum PInf (Num b) = (if 0 \<le> b then PInf else NInf)"
| "divide_jsnum NInf (Num b) = (if 0 \<le> b then NInf else PInf)"
| "divide_jsnum PInf b = NaN"
| "divide_jsnum NInf b = NaN"

definition inverse_jsnum :: "jsnum \<Rightarrow> jsnum" where
  "inverse_jsnum a = divide (Num 1) a"

fun less_jsnum :: "jsnum \<Rightarrow> jsnum \<Rightarrow> bool" where
  "less_jsnum NaN b = False"
| "less_jsnum a NaN = False"
| "less_jsnum (Num a) (Num b) = (a < b)"
| "less_jsnum a NInf = False"
| "less_jsnum PInf b = False"
| "less_jsnum a PInf = True"
| "less_jsnum NInf b = True"

fun less_eq_jsnum :: "jsnum \<Rightarrow> jsnum \<Rightarrow> bool" where
  "less_eq_jsnum NaN b = False"
| "less_eq_jsnum a NaN = False"
| "less_eq_jsnum (Num a) (Num b) = (a \<le> b)"
| "less_eq_jsnum NInf b = True"
| "less_eq_jsnum a PInf = True"
| "less_eq_jsnum a NInf = False"
| "less_eq_jsnum PInf b = False"

instance ..

end

text \<open>
  Addition and multiplication are associative and commutative with the special values
  too, which gives the numerals and the powers their usual meaning on finite numbers.
\<close>

instance jsnum :: comm_monoid_add
proof
  fix u v w :: jsnum
  show "u + v = v + u"
    by (cases u; cases v; simp)
  show "0 + u = u"
    by (cases u; simp add: zero_jsnum_def)
  show "u + v + w = u + (v + w)"
    by (cases u; cases v; cases w; simp)
qed

instance jsnum :: comm_monoid_mult
proof
  fix u v w :: jsnum
  show "u * v = v * u"
    by (cases u; cases v; simp add: mult.commute)
  show "1 * u = u"
    by (cases u; simp add: one_jsnum_def)
  show "u * v * w = u * (v * w)"
    by (cases u; cases v; cases w)
       (auto simp: zero_less_mult_iff mult_less_0_iff mult_le_0_iff zero_le_mult_iff not_less)
qed

instance jsnum :: numeral ..

text \<open>\<^verbatim>\<open>Math.sqrt\<close>.\<close>

fun js_sqrt :: "jsnum \<Rightarrow> jsnum" where
  "js_sqrt (Num a) = (if a < 0 then NaN else Num (sqrt a))"
| "js_sqrt PInf = PInf"
| "js_sqrt NInf = NaN"
| "js_sqrt NaN = NaN"

section \<open>Data model\<close>

record Vec3 =
  x :: jsnum
  y :: jsnum
  z :: jsnum

text \<open>The exceptions the code can raise; \<^verbatim>\<open>calculateOrbit\<close> catches all of them.\<close>

datatype js_error = RangeError | TypeError

text \<open>
  A JavaScript array is a list of slots; \<open>None\<close> is a hole, which reads as
  \<^verbatim>\<open>undefined\<close>. \<^verbatim>\<open>new Array(len)\<close> makes \<open>len\<close> holes and throws a
  RangeError when \<open>len\<close> is not an array length (an integer from 0 to 2^32 - 1).
  Reading past the end gives \<^verbatim>\<open>undefined\<close>; writing past the end extends the array.
\<close>

definition new_Array :: "int \<Rightarrow> js_error + 'a option list" where
  "new_Array len =
     (if 0 \<le> len \<and> len \<le> 4294967295 then Inr (replicate (nat len) None)
      else Inl RangeError)"

definition js_get :: "'a option list \<Rightarrow> nat \<Rightarrow> 'a option" where
  "js_get xs i = (if i < length xs then xs ! i else None)"

definition js_set :: "'a option list \<Rightarrow> nat \<Rightarrow> 'a \<Rightarrow> 'a option list" where
  "js_set xs i v =
     (if i < length xs then xs[i := Some v]
      else xs @ replicate (i - length xs) None @ [Some v])"

text \<open>An array entry used as a number: \<^verbatim>\<open>undefined\<close> is NaN in arithmetic.\<close>

definition js_num :: "jsnum option \<Rightarrow> jsnum" where
  "js_num v = (case v of None \<Rightarrow> NaN | Some u \<Rightarrow> u)"

text \<open>\<^verbatim>\<open>xs.slice(0, end)\<close> for a nonnegative integer \<open>end\<close>.\<close>

definition js_slice0 :: "'a option list \<Rightarrow> nat \<Rightarrow> 'a option list" where
  "js_slice0 xs end = take end xs"

section \<open>The planar orbit sampler\<close>

text \<open>
  \<^verbatim>\<open>samplePlanarOrbit\<close>, lines 3 to 11. The loop counter \<open>i\<close> is an integer. The
  arguments are taken as finite numbers; \<open>samples\<close> is positive whenever the quotient
  of line 6 is computed, so every coordinate is finite.
\<close>

function samplePlanarOrbit_loop :: "real \<Rightarrow> real \<Rightarrow> nat \<Rightarrow> Vec3 list \<Rightarrow> Vec3 list" where
  "samplePlanarOrbit_loop samples radius i out =
     (if real i < samples then
        (let t = real i / samples * 2 * pi;
             r = radius
         in samplePlanarOrbit_loop samples radius (i + 1)
              (out @ [\<lparr>x = Num (r * cos t), y = Num (r * sin t), z = 0\<rparr>]))
      else out)"
  by pat_completeness auto
termination
proof (relation "measure (\<lambda>(samples, radius, i, out). nat \<lceil>samples\<rceil> - i)")
  show "wf (measure (\<lambda>(samples, radius, i, out). nat \<lceil>samples\<rceil> - i))"
    by simp
next
  fix samples radius :: real and i :: nat and out :: "Vec3 list" and ta ra :: real
  assume "real i < samples"
  then have "int i < \<lceil>samples\<rceil>"
    by linarith
  then show "((samples, radius, i + 1,
               out @ [\<lparr>x = Num (ra * cos ta), y = Num (ra * sin ta), z = 0\<rparr>]),
              (samples, radius, i, out))
             \<in> measure (\<lambda>(samples, radius, i, out). nat \<lceil>samples\<rceil> - i)"
    by simp
qed

definition samplePlanarOrbit :: "real \<Rightarrow> real \<Rightarrow> Vec3 list" where
  "samplePlanarOrbit samples radius = samplePlanarOrbit_loop samples radius 0 []"

section \<open>The step loop\<close>

text \<open>
  The arrays and the two result variables of \<^verbatim>\<open>planetRK2\<close>, lines 90 to 191; \<open>tm\<close> is
  the parameter \<^verbatim>\<open>t\<close>.
\<close>

record rk2_state =
  tm :: "jsnum option list"
  pos :: "Vec3 option list"
  vel :: "Vec3 option list"
  num :: nat
  error :: nat

definition sq :: "jsnum \<Rightarrow> jsnum" where
  "sq u = u * u"

definition hypot3 :: "Vec3 \<Rightarrow> jsnum" where
  "hypot3 vec = js_sqrt (x vec * x vec + y vec * y vec + z vec * z vec)"

text \<open>
  Lines 115 to 160: from \<^verbatim>\<open>pos[i]\<close> and \<^verbatim>\<open>vel[i]\<close>, the values written to
  \<^verbatim>\<open>pos[i1]\<close> and \<^verbatim>\<open>vel[i1]\<close>. The source's \<^verbatim>\<open>o\<close> is \<open>o'\<close> here.
\<close>

definition rk2_advance :: "jsnum \<Rightarrow> jsnum \<Rightarrow> jsnum \<Rightarrow> Vec3 \<Rightarrow> Vec3 \<Rightarrow> Vec3 \<times> Vec3" where
  "rk2_advance radius GM dt posi veli =
     (let r = hypot3 posi;
          xpri = x posi + (dt * x veli) / 2;
          ypri = y posi + (dt * y veli) / 2;
          zpri = z posi + (dt * z veli) / 2;
          r2 = r * r;
          r3 = r2 * r;
          r5 = r3 * r2;
          r7 = r5 * r2;
          m = GM / r3;
          o' = - 3.75 * ((GM * radius * radius) / r7) * sq (z posi);
          p = 0.75 * ((GM * radius * radius) / r5);
          q = 1.5 * ((GM * radius * radius) / r5);
          vxpri = x veli - (dt * x posi * (m + o' + p)) / 2;
          vypri = y veli - (dt * y posi * (m + o' + p)) / 2;
          vzpri = z veli - (dt * z posi * (m + o' + p + q)) / 2;
          rpri = hypot3 \<lparr>x = xpri, y = ypri, z = zpri\<rparr>;
          posi1 = \<lparr>x = x posi + dt * vxpri, y = y posi + dt * vypri,
                   z = z posi + dt * vzpri\<rparr>;
          rpri2 = rpri * rpri;
          rpri3 = rpri2 * rpri;
          rpri5 = rpri3 * rpri2;
          rpri7 = rpri5 * rpri2;
          mpri = GM / rpri3;
          opri = - 3.75 * ((GM * radius * radius) / rpri7) * sq zpri;
          ppri = 0.75 * ((GM * radius * radius) / rpri5);
          qpri = 1.5 * ((GM * radius * radius) / rpri5);
          veli1 = \<lparr>x = x veli - dt * xpri * (mpri + opri + ppri),
                   y = y veli - dt * ypri * (mpri + opri + ppri),
                   z = z veli - dt * zpri * (mpri + opri + ppri + qpri)\<rparr>
      in (posi1, veli1))"

text \<open>
  Lines 168 to 174, the loop that freezes the entries after a collision at index \<open>i\<close>.
  \<^verbatim>\<open>pos[i].x\<close> throws a TypeError when \<^verbatim>\<open>pos[i]\<close> is undefined.
\<close>

function freeze :: "nat \<Rightarrow> jsnum \<Rightarrow> nat \<Rightarrow> nat \<Rightarrow> rk2_state \<Rightarrow> js_error + rk2_state" where
  "freeze n dt i j s =
     (if int j \<le> int n - 2 then
        (case js_get (pos s) i of
           None \<Rightarrow> Inl TypeError
         | Some p \<Rightarrow>
             (let j1 = j + 1;
                  i1 = i + 1;
                  s1 = s\<lparr>pos := js_set (pos s) j1 \<lparr>x = x p, y = y p, z = z p\<rparr>\<rparr>;
                  s2 = s1\<lparr>vel := js_set (vel s1) j1 \<lparr>x = 0, y = 0, z = 0\<rparr>\<rparr>;
                  s3 = (if j1 > i1
                        then s2\<lparr>tm := js_set (tm s2) j1 (js_num (js_get (tm s2) j) + dt)\<rparr>
                        else s2)
              in freeze n dt i j1 s3))
      else Inr s)"
  by pat_completeness auto
termination
  by (relation "measure (\<lambda>(n, dt, i, j, s). n - j)") auto

text \<open>
  Lines 108 to 182, the main loop from index \<open>i\<close> on. Reading a component of
  \<^verbatim>\<open>pos[i]\<close> or \<^verbatim>\<open>vel[i]\<close> throws a TypeError when the entry is undefined.
\<close>

function planetRK2_loop ::
  "nat \<Rightarrow> jsnum \<Rightarrow> jsnum \<Rightarrow> jsnum \<Rightarrow> nat \<Rightarrow> rk2_state \<Rightarrow> js_error + rk2_state" where
  "planetRK2_loop n radius GM dt i s =
     (if int i \<le> int n - 2 then
        (let i1 = i + 1;
             s1 = s\<lparr>tm := js_set (tm s) i1 (js_num (js_get (tm s) i) + dt)\<rparr>
         in case js_get (pos s1) i of
              None \<Rightarrow> Inl TypeError
            | Some p \<Rightarrow>
                (case js_get (vel s1) i of
                   None \<Rightarrow> Inl TypeError
                 | Some v \<Rightarrow>
                     (let r = hypot3 p;
                          s2 = s1\<lparr>pos := js_set (pos s1) i1 (fst (rk2_advance radius GM dt p v))\<rparr>;
                          s3 = s2\<lparr>vel := js_set (vel s2) i1 (snd (rk2_advance radius GM dt p v))\<rparr>
                      in if r < radius then freeze n dt i i (s3\<lparr>num := i, error := 1\<rparr>)
                         else planetRK2_loop n radius GM dt i1
                                (s3\<lparr>num := i1,
                                    error := (if int i = int n - 2 then 0 else error s3)\<rparr>))))
      else Inr s)"
  by pat_completeness auto
termination
  by (relation "measure (\<lambda>(n, radius, GM, dt, i, s). n - i)") auto

text \<open>
  \<^verbatim>\<open>planetRK2\<close>. The parameters \<^verbatim>\<open>num\<close> and \<^verbatim>\<open>error\<close> are its local variables;
  the result holds the arrays as the call leaves them, and the returned pair. The count
  \<open>n\<close> is a whole number.
\<close>

definition planetRK2 ::
  "nat \<Rightarrow> nat \<Rightarrow> jsnum \<Rightarrow> jsnum \<Rightarrow> jsnum \<Rightarrow> jsnum option list \<Rightarrow> Vec3 option list
     \<Rightarrow> Vec3 option list \<Rightarrow> nat \<Rightarrow> js_error + rk2_state" where
  "planetRK2 n num0 radius GM dt t0 pos0 vel0 error0 =
     (let s0 = \<lparr>tm = t0, pos = pos0, vel = vel0, num = num0, error = 0\<rparr>
      in if n \<le> 1 then Inr (s0\<lparr>num := 0, error := 1\<rparr>)
         else
           (case planetRK2_loop n radius GM dt 0 s0 of
              Inl e \<Rightarrow> Inl e
            | Inr s \<Rightarrow>
                Inr (if n \<ge> 2 \<and> error s = 0 then s\<lparr>num := n - 1\<rparr> else s)))"

section \<open>The entry point\<close>

text \<open>
  The final time is taken as a finite number: only the whole number
  \<^verbatim>\<open>Math.abs(Math.round(finalTime / timeStep))\<close> is used. \<^verbatim>\<open>Math.round\<close> rounds a half
  up, as \<^const>\<open>round\<close> does.
\<close>

definition timeStep :: real where
  "timeStep = 0.1"

text \<open>The value every failure path of \<^verbatim>\<open>calculateOrbit\<close> returns.\<close>

definition fallback :: "Vec3 option list \<times> jsnum" where
  "fallback = (map Some (samplePlanarOrbit 1 0.1), 0)"

text \<open>The body of the \<^verbatim>\<open>try\<close> block, lines 22 to 81.\<close>

definition calculateOrbit_try ::
  "real \<Rightarrow> Vec3 \<Rightarrow> Vec3 \<Rightarrow> jsnum \<Rightarrow> js_error + (Vec3 option list \<times> jsnum)" where
  "calculateOrbit_try finalTime initialPosition initialVelocity attractorRadius =
     (let GM = 4 * Num pi * Num pi;
          numPoints = \<bar>round (finalTime / timeStep)\<bar>
      in if numPoints \<le> 0 \<or> timeStep \<le> 0 then Inr fallback
         else
           (case new_Array numPoints of
              Inl e \<Rightarrow> Inl e
            | Inr positions0 \<Rightarrow>
           (case new_Array numPoints of
              Inl e \<Rightarrow> Inl e
            | Inr velocities0 \<Rightarrow>
           (case new_Array numPoints of
              Inl e \<Rightarrow> Inl e
            | Inr times0 \<Rightarrow>
                (let positions = js_set positions0 0 initialPosition;
                     velocities = js_set velocities0 0 initialVelocity;
                     times = js_set times0 0 0;
                     r = js_sqrt ((x initialPosition)\<^sup>2 + (y initialPosition)\<^sup>2
                                  + (z initialPosition)\<^sup>2);
                     vmag = js_sqrt ((x initialVelocity)\<^sup>2 + (y initialVelocity)\<^sup>2
                                     + (z initialVelocity)\<^sup>2);
                     mass = 1;
                     KE = 0.5 * mass * vmag\<^sup>2;
                     PH = - GM / r
                          + ((0.75 * GM * attractorRadius\<^sup>2 * (z initialPosition)\<^sup>2) / r ^ 5)
                          - ((0.25 * GM * attractorRadius\<^sup>2) / r ^ 3);
                     E = KE + mass * PH
                 in if r \<le> 0 \<or> vmag \<le> 0 then Inr fallback
                    else
                      (case planetRK2 (nat numPoints) 0 attractorRadius GM (Num timeStep)
                              times positions velocities 0 of
                         Inl e \<Rightarrow> Inl e
                       | Inr result \<Rightarrow>
                           (let numComputed = num result
                            in if numComputed < 2 then Inr fallback
                               else Inr (js_slice0 (pos result) (numComputed + 1), E))))))))"

text \<open>\<^verbatim>\<open>calculateOrbit\<close>: the \<^verbatim>\<open>catch\<close> turns every exception into the fallback.\<close>

definition calculateOrbit :: "real \<Rightarrow> Vec3 \<Rightarrow> Vec3 \<Rightarrow> jsnum \<Rightarrow> Vec3 option list \<times> jsnum" where
  "calculateOrbit finalTime initialPosition initialVelocity attractorRadius =
     (case calculateOrbit_try finalTime initialPosition initialVelocity attractorRadius of
        Inl e \<Rightarrow> fallback
      | Inr res \<Rightarrow> res)"

section \<open>Vocabulary of the properties\<close>

text \<open>
  The test of line 163 on an array entry, and the first index at which it holds.
\<close>

definition collides :: "jsnum \<Rightarrow> Vec3 option \<Rightarrow> bool" where
  "collides radius e = (case e of None \<Rightarrow> False | Some p \<Rightarrow> hypot3 p < radius)"

definition first_collision :: "jsnum \<Rightarrow> Vec3 option list \<Rightarrow> nat \<Rightarrow> bool" where
  "first_collision radius ps i =
     (collides radius (js_get ps i) \<and> \<not> list_ex (collides radius) (take i ps))"

text \<open>Step \<open>k\<close> of a finished run advanced the body without a collision.\<close>

definition stepped :: "jsnum \<Rightarrow> jsnum \<Rightarrow> jsnum \<Rightarrow> rk2_state \<Rightarrow> nat \<Rightarrow> bool" where
  "stepped radius GM dt s k =
     (\<exists>p v. js_get (pos s) k = Some p \<and> js_get (vel s) k = Some v \<and> \<not> hypot3 p < radius
        \<and> js_get (pos s) (k + 1) = Some (fst (rk2_advance radius GM dt p v))
        \<and> js_get (vel s) (k + 1) = Some (snd (rk2_advance radius GM dt p v))
        \<and> js_get (tm s) (k + 1) = Some (js_num (js_get (tm s) k) + dt))"

text \<open>A finished run detected a collision at index \<open>c\<close> and froze the entries after it.\<close>

definition frozen_from :: "jsnum \<Rightarrow> jsnum \<Rightarrow> nat \<Rightarrow> rk2_state \<Rightarrow> nat \<Rightarrow> bool" where
  "frozen_from radius dt n s c =
     (\<exists>p v. js_get (pos s) c = Some p \<and> js_get (vel s) c = Some v \<and> hypot3 p < radius
        \<and> (\<forall>k. c \<le> k \<and> k < n \<longrightarrow> js_get (pos s) k = Some p)
        \<and> (\<forall>k. c < k \<and> k < n \<longrightarrow> js_get (vel s) k = Some \<lparr>x = 0, y = 0, z = 0\<rparr>)
        \<and> (\<forall>k. c \<le> k \<and> k + 1 < n
               \<longrightarrow> js_get (tm s) (k + 1) = Some (js_num (js_get (tm s) k) + dt)))"

text \<open>
  The guards of lines 25 and 48 and the three allocations: \<^verbatim>\<open>calculateOrbit\<close> reaches
  the call of \<^verbatim>\<open>planetRK2\<close> exactly when this holds.
\<close>

definition reaches_loop :: "real \<Rightarrow> Vec3 \<Rightarrow> Vec3 \<Rightarrow> bool" where
  "reaches_loop finalTime initialPosition initialVelocity =
     (0 < \<bar>round (finalTime / timeStep)\<bar> \<and> \<bar>round (finalTime / timeStep)\<bar> \<le> 4294967295
      \<and> \<not> hypot3 initialPosition \<le> 0 \<and> \<not> hypot3 initialVelocity \<le> 0)"

text \<open>
  The call of \<^verbatim>\<open>planetRK2\<close> at lines 58 to 68, on the arrays that lines 31 to 38
  allocate and seed.
\<close>

definition orbit_run :: "real \<Rightarrow> Vec3 \<Rightarrow> Vec3 \<Rightarrow> jsnum \<Rightarrow> js_error + rk2_state" where
  "orbit_run finalTime initialPosition initialVelocity attractorRadius =
     (let numPoints = nat \<bar>round (finalTime / timeStep)\<bar>
      in planetRK2 numPoints 0 attractorRadius (4 * Num pi * Num pi) (Num timeStep)
           (js_set (replicate numPoints None) 0 0)
           (js_set (replicate numPoints None) 0 initialPosition)
           (js_set (replicate numPoints None) 0 initialVelocity) 0)"

text \<open>
  The energy of section 4.1 of the specification, in its words: kinetic plus potential
  energy at the initial point, with \<open>GM = 4 \<pi>\<^sup>2\<close>.
\<close>

definition energy_spec :: "Vec3 \<Rightarrow> Vec3 \<Rightarrow> jsnum \<Rightarrow> jsnum" where
  "energy_spec initialPosition initialVelocity attractorRadius =
     (let GM = 4 * (Num pi)\<^sup>2;
          r0 = hypot3 initialPosition;
          v0 = hypot3 initialVelocity;
          z0 = z initialPosition
      in 0.5 * v0\<^sup>2 - GM / r0 + (0.75 * GM * attractorRadius\<^sup>2 * z0\<^sup>2) / r0 ^ 5
         - (0.25 * GM * attractorRadius\<^sup>2) / r0 ^ 3)"

text \<open>
  The force law of section 4.2 of the specification, in its words, and \<open>w + a u\<close> on
  vectors, to state the velocity update with.
\<close>

definition accel_spec :: "jsnum \<Rightarrow> jsnum \<Rightarrow> Vec3 \<Rightarrow> Vec3" where
  "accel_spec radius GM h =
     (let r = hypot3 h;
          m = GM / r ^ 3;
          o' = - 3.75 * GM * radius\<^sup>2 * (z h)\<^sup>2 / r ^ 7;
          p = 0.75 * GM * radius\<^sup>2 / r ^ 5;
          q = 1.5 * GM * radius\<^sup>2 / r ^ 5
      in \<lparr>x = - x h * (m + o' + p), y = - y h * (m + o' + p), z = - z h * (m + o' + p + q)\<rparr>)"

definition axpy :: "jsnum \<Rightarrow> Vec3 \<Rightarrow> Vec3 \<Rightarrow> Vec3" where
  "axpy a u w = \<lparr>x = x w + a * x u, y = y w + a * y u, z = z w + a * z u\<rparr>"


definition finite_num :: "jsnum \<Rightarrow> bool" where
  "finite_num a = (case a of Num r \<Rightarrow> True | _ \<Rightarrow> False)"


definition half_step :: "jsnum \<Rightarrow> Vec3 \<Rightarrow> Vec3 \<Rightarrow> Vec3" where
  "half_step dt p v =
     \<lparr>x = x p + (dt * x v) / 2, y = y p + (dt * y v) / 2, z = z p + (dt * z v) / 2\<rparr>"



declare freeze.simps [simp del]
declare planetRK2_loop.simps [simp del]
declare samplePlanarOrbit_loop.simps [simp del]
declare zero_jsnum_def [simp]
declare one_jsnum_def [simp]

section \<open>Arithmetic with special values\<close>

lemma numeral_jsnum [simp]: "numeral k = Num (numeral k)"
proof (induction k)
  case One
  show ?case
    by (simp only: numeral_One one_jsnum_def)
next
  case (Bit0 k)
  have "numeral (num.Bit0 k) = Num (numeral k) + Num (numeral k)"
    by (simp only: numeral_Bit0 Bit0)
  also have "\<dots> = Num (numeral (num.Bit0 k))"
    by (simp only: plus_jsnum.simps numeral_Bit0)
  finally show ?case .
next
  case (Bit1 k)
  have "numeral (num.Bit1 k) = Num (numeral k) + Num (numeral k) + Num 1"
    by (simp only: numeral_Bit1 Bit1 one_jsnum_def)
  also have "\<dots> = Num (numeral (num.Bit1 k))"
    by (simp only: plus_jsnum.simps numeral_Bit1)
  finally show ?case .
qed

lemma Num_power [simp]: "Num a ^ n = Num (a ^ n)"
  by (induction n) simp_all

lemma Num_minus [simp]: "Num a - Num b = Num (a - b)"
  by (simp add: minus_jsnum_def)

lemma NaN_absorbs [simp]:
  "a - NaN = NaN" "NaN - a = NaN" "a + NaN = NaN" "a * NaN = NaN" "a / NaN = NaN"
  by (cases a; simp add: minus_jsnum_def)+

lemma divide_inverse_jsnum: "a / b = a * inverse b" for a b :: jsnum
  by (cases a; cases b) (auto simp: inverse_jsnum_def divide_inverse)

lemma minus_mult_jsnum: "(- a) * b = - (a * b)" "a * (- b) = - (a * b)" "- (- a) = a"
  for a b :: jsnum
  by (cases a; cases b; simp)+

lemma diff_conv_jsnum: "a - b = a + - b" for a b :: jsnum
  by (simp add: minus_jsnum_def)

lemma less_asym_jsnum: "a < b \<Longrightarrow> \<not> b < a" for a b :: jsnum
  by (cases a; cases b) simp_all

lemma less_le_jsnum: "0 \<le> a \<Longrightarrow> a < b \<Longrightarrow> \<not> b \<le> 0" for a b :: jsnum
  by (cases a; cases b) simp_all

lemma pos_not_le_jsnum: "0 < a \<Longrightarrow> \<not> a \<le> 0" for a :: jsnum
  by (cases a) simp_all

lemma js_sqrt_not_less: "r \<le> 0 \<Longrightarrow> \<not> js_sqrt a < r"
  by (cases a; cases r) (auto simp: not_less intro: order_trans)

section \<open>Arrays\<close>

text \<open>Reading and writing behave as on a map from indices to slots.\<close>

lemma js_get_set: "js_get (js_set xs i v) k = (if k = i then Some v else js_get xs k)"
  by (auto simp: js_get_def js_set_def nth_append)

lemma js_get_defined: "js_get xs k = Some v \<Longrightarrow> k < length xs \<and> xs ! k = Some v"
  by (auto simp: js_get_def split: if_splits)

lemma js_sqrt_cases: "js_sqrt a = NaN \<or> js_sqrt a = PInf \<or> (\<exists>r\<ge>0. js_sqrt a = Num r)"
  by (cases a) simp_all

lemma hypot3_cases: "hypot3 p = NaN \<or> hypot3 p = PInf \<or> (\<exists>r\<ge>0. hypot3 p = Num r)"
  unfolding hypot3_def by (rule js_sqrt_cases)

lemma hypot3_not_less: "radius \<le> 0 \<Longrightarrow> \<not> hypot3 p < radius"
  unfolding hypot3_def by (rule js_sqrt_not_less)

section \<open>The freezing loop\<close>

text \<open>
  What the loop of lines 168 to 174 leaves behind, started at \<open>j\<close> for a
  collision at \<open>i\<close>.
\<close>

lemma freeze_done:
  assumes "\<not> int j \<le> int n - 2"
  shows "\<exists>s'. freeze n dt i j s = Inr s' \<and> num s' = num s \<and> error s' = error s
           \<and> (\<forall>k. js_get (pos s') k = (if j < k \<and> k < n then Some p else js_get (pos s) k))
           \<and> (\<forall>k. js_get (vel s') k
                    = (if j < k \<and> k < n then Some \<lparr>x = 0, y = 0, z = 0\<rparr> else js_get (vel s) k))
           \<and> (\<forall>k. k \<le> j \<or> k \<le> i + 1 \<or> n \<le> k \<longrightarrow> js_get (tm s') k = js_get (tm s) k)
           \<and> (\<forall>k. j \<le> k \<and> i < k \<and> k + 1 < n
                  \<longrightarrow> js_get (tm s') (k + 1) = Some (js_num (js_get (tm s') k) + dt))"
proof -
  have "freeze n dt i j s = Inr s"
    using assms by (subst freeze.simps) simp
  moreover have "n \<le> j + 1"
    using assms by linarith
  ultimately show ?thesis
    by (intro exI[of _ s]) auto
qed

lemma freeze_spec:
  assumes "js_get (pos s) i = Some p" and "i \<le> j"
  shows "\<exists>s'. freeze n dt i j s = Inr s' \<and> num s' = num s \<and> error s' = error s
           \<and> (\<forall>k. js_get (pos s') k = (if j < k \<and> k < n then Some p else js_get (pos s) k))
           \<and> (\<forall>k. js_get (vel s') k
                    = (if j < k \<and> k < n then Some \<lparr>x = 0, y = 0, z = 0\<rparr> else js_get (vel s) k))
           \<and> (\<forall>k. k \<le> j \<or> k \<le> i + 1 \<or> n \<le> k \<longrightarrow> js_get (tm s') k = js_get (tm s) k)
           \<and> (\<forall>k. j \<le> k \<and> i < k \<and> k + 1 < n
                  \<longrightarrow> js_get (tm s') (k + 1) = Some (js_num (js_get (tm s') k) + dt))"
  using assms
proof (induction "n - j" arbitrary: j s)
  case 0
  then have "\<not> int j \<le> int n - 2" by linarith
  then show ?case by (rule freeze_done)
next
  case (Suc d)
  show ?case
  proof (cases "int j \<le> int n - 2")
    case False
    then show ?thesis by (rule freeze_done)
  next
    case True
    define s2 where "s2 = s\<lparr>pos := js_set (pos s) (j + 1) \<lparr>x = x p, y = y p, z = z p\<rparr>,
                            vel := js_set (vel s) (j + 1) \<lparr>x = 0, y = 0, z = 0\<rparr>\<rparr>"
    define s3 where "s3 = (if j + 1 > i + 1
                           then s2\<lparr>tm := js_set (tm s2) (j + 1) (js_num (js_get (tm s2) j) + dt)\<rparr>
                           else s2)"
    have unfold: "freeze n dt i j s = freeze n dt i (j + 1) s3"
      using True Suc.prems(1) by (subst freeze.simps) (simp add: s3_def s2_def Let_def)
    have peq: "\<lparr>x = x p, y = y p, z = z p\<rparr> = p" by simp
    have pos3: "js_get (pos s3) k = (if k = j + 1 then Some p else js_get (pos s) k)" for k
      by (simp add: s3_def s2_def js_get_set peq)
    have vel3: "js_get (vel s3) k
                = (if k = j + 1 then Some \<lparr>x = 0, y = 0, z = 0\<rparr> else js_get (vel s) k)" for k
      by (simp add: s3_def s2_def js_get_set)
    have tm3: "js_get (tm s3) k
               = (if k = j + 1 \<and> i < j then Some (js_num (js_get (tm s) j) + dt)
                  else js_get (tm s) k)" for k
      by (simp add: s3_def s2_def js_get_set)
    have ne3: "num s3 = num s" "error s3 = error s"
      by (simp_all add: s3_def s2_def)
    have "js_get (pos s3) i = Some p"
      using Suc.prems by (simp add: pos3)
    moreover have "d = n - (j + 1)" "i \<le> j + 1"
      using Suc.hyps(2) Suc.prems(2) by linarith+
    ultimately obtain s' where s': "freeze n dt i (j + 1) s3 = Inr s'"
      "num s' = num s3" "error s' = error s3"
      "\<And>k. js_get (pos s') k = (if j + 1 < k \<and> k < n then Some p else js_get (pos s3) k)"
      "\<And>k. js_get (vel s') k
            = (if j + 1 < k \<and> k < n then Some \<lparr>x = 0, y = 0, z = 0\<rparr> else js_get (vel s3) k)"
      "\<And>k. k \<le> j + 1 \<or> k \<le> i + 1 \<or> n \<le> k \<Longrightarrow> js_get (tm s') k = js_get (tm s3) k"
      "\<And>k. j + 1 \<le> k \<and> i < k \<and> k + 1 < n
            \<Longrightarrow> js_get (tm s') (k + 1) = Some (js_num (js_get (tm s') k) + dt)"
      using Suc.hyps(1)[of "j + 1" s3] by blast
    have jn: "j + 1 < n" using True by linarith
    have A: "js_get (pos s') k = (if j < k \<and> k < n then Some p else js_get (pos s) k)" for k
      using jn by (simp add: s'(4) pos3)
    have B: "js_get (vel s') k
             = (if j < k \<and> k < n then Some \<lparr>x = 0, y = 0, z = 0\<rparr> else js_get (vel s) k)" for k
      using jn by (simp add: s'(5) vel3)
    have C: "js_get (tm s') k = js_get (tm s) k" if "k \<le> j \<or> k \<le> i + 1 \<or> n \<le> k" for k
    proof -
      have "js_get (tm s') k = js_get (tm s3) k"
        using that by (intro s'(6)) linarith
      also have "\<dots> = js_get (tm s) k"
        using that jn Suc.prems(2) by (auto simp: tm3)
      finally show ?thesis .
    qed
    have D: "js_get (tm s') (k + 1) = Some (js_num (js_get (tm s') k) + dt)"
      if "j \<le> k \<and> i < k \<and> k + 1 < n" for k
    proof (cases "k = j")
      case False
      then show ?thesis using that by (intro s'(7)) linarith
    next
      case True
      have "js_get (tm s') (j + 1) = js_get (tm s3) (j + 1)"
        by (intro s'(6)) simp
      also have "\<dots> = Some (js_num (js_get (tm s) j) + dt)"
        using that True by (simp add: tm3)
      also have "js_get (tm s) j = js_get (tm s') j"
        by (rule C[symmetric]) simp
      finally show ?thesis using True by simp
    qed
    show ?thesis
      using unfold s'(1,2,3) ne3 A B C D by auto
  qed
qed

section \<open>The main loop\<close>

text \<open>
  The main loop never throws when its current entries are defined, keeps the entries up
  to its start index, and ends in one of two ways: frozen at the first collision, or
  stepped to the end.
\<close>

lemma loop_done:
  "\<not> int i \<le> int n - 2 \<Longrightarrow> planetRK2_loop n radius GM dt i s = Inr s"
  by (subst planetRK2_loop.simps) simp

lemma loop_spec:
  assumes "js_get (pos s) i = Some p" and "js_get (vel s) i = Some v" and "i + 2 \<le> n"
  shows "\<exists>s'. planetRK2_loop n radius GM dt i s = Inr s'
           \<and> (\<forall>k\<le>i. js_get (pos s') k = js_get (pos s) k \<and> js_get (vel s') k = js_get (vel s) k
                      \<and> js_get (tm s') k = js_get (tm s) k)
           \<and> ((\<exists>c. i \<le> c \<and> c + 2 \<le> n \<and> (\<forall>k. i \<le> k \<and> k < c \<longrightarrow> stepped radius GM dt s' k)
                   \<and> frozen_from radius dt n s' c \<and> num s' = c \<and> error s' = 1)
                \<or> ((\<forall>k. i \<le> k \<and> k + 2 \<le> n \<longrightarrow> stepped radius GM dt s' k)
                    \<and> num s' = n - 1 \<and> error s' = 0))"
  using assms
proof (induction "n - i" arbitrary: i s p v)
  case 0
  then show ?case by simp
next
  case (Suc d)
  define s1 where "s1 = s\<lparr>tm := js_set (tm s) (i + 1) (js_num (js_get (tm s) i) + dt)\<rparr>"
  define s3 where "s3 = s1\<lparr>pos := js_set (pos s1) (i + 1) (fst (rk2_advance radius GM dt p v)),
                          vel := js_set (vel s1) (i + 1) (snd (rk2_advance radius GM dt p v))\<rparr>"
  have cond: "int i \<le> int n - 2"
    using Suc.prems(3) by linarith
  have pos3: "js_get (pos s3) k
              = (if k = i + 1 then Some (fst (rk2_advance radius GM dt p v)) else js_get (pos s) k)" for k
    by (simp add: s3_def s1_def js_get_set)
  have vel3: "js_get (vel s3) k
              = (if k = i + 1 then Some (snd (rk2_advance radius GM dt p v)) else js_get (vel s) k)" for k
    by (simp add: s3_def s1_def js_get_set)
  have tm3: "js_get (tm s3) k
             = (if k = i + 1 then Some (js_num (js_get (tm s) i) + dt) else js_get (tm s) k)" for k
    by (simp add: s3_def s1_def js_get_set)
  show ?case
  proof (cases "hypot3 p < radius")
    case True
    define sc where "sc = s3\<lparr>num := i, error := 1\<rparr>"
    have unfold: "planetRK2_loop n radius GM dt i s = freeze n dt i i sc"
      using cond Suc.prems(1,2) True
      by (subst planetRK2_loop.simps) (simp add: sc_def s3_def s1_def Let_def)
    have "js_get (pos sc) i = Some p"
      using Suc.prems(1) by (simp add: sc_def pos3)
    then obtain s' where s': "freeze n dt i i sc = Inr s'" "num s' = num sc" "error s' = error sc"
      "\<And>k. js_get (pos s') k = (if i < k \<and> k < n then Some p else js_get (pos sc) k)"
      "\<And>k. js_get (vel s') k
            = (if i < k \<and> k < n then Some \<lparr>x = 0, y = 0, z = 0\<rparr> else js_get (vel sc) k)"
      "\<And>k. k \<le> i \<or> k \<le> i + 1 \<or> n \<le> k \<Longrightarrow> js_get (tm s') k = js_get (tm sc) k"
      "\<And>k. i \<le> k \<and> i < k \<and> k + 1 < n
            \<Longrightarrow> js_get (tm s') (k + 1) = Some (js_num (js_get (tm s') k) + dt)"
      using freeze_spec[of sc i p i n dt] by blast
    have sc_simps: "pos sc = pos s3" "vel sc = vel s3" "tm sc = tm s3" "num sc = i" "error sc = 1"
      by (simp_all add: sc_def)
    have pre: "js_get (pos s') k = js_get (pos s) k \<and> js_get (vel s') k = js_get (vel s) k
               \<and> js_get (tm s') k = js_get (tm s) k" if "k \<le> i" for k
      using that by (simp add: s'(4,5,6) sc_simps pos3 vel3 tm3)
    have tmi: "js_get (tm s') (i + 1) = Some (js_num (js_get (tm s') i) + dt)"
      using pre[of i] by (simp add: s'(6) sc_simps tm3)
    have tmk: "js_get (tm s') (k + 1) = Some (js_num (js_get (tm s') k) + dt)"
      if "i \<le> k \<and> k + 1 < n" for k
    proof (cases "k = i")
      case True
      then show ?thesis using tmi by simp
    next
      case False
      then show ?thesis using that by (intro s'(7)) linarith
    qed
    have "frozen_from radius dt n s' i"
      unfolding frozen_from_def
    proof (rule exI[of _ p], rule exI[of _ v], intro conjI allI impI)
      show "js_get (pos s') i = Some p" using pre[of i] Suc.prems(1) by simp
      show "js_get (vel s') i = Some v" using pre[of i] Suc.prems(2) by simp
      show "hypot3 p < radius" by (rule True)
      show "js_get (pos s') k = Some p" if "i \<le> k \<and> k < n" for k
        using that Suc.prems(1) by (cases "k = i") (simp_all add: s'(4) sc_simps pos3)
      show "js_get (vel s') k = Some \<lparr>x = 0, y = 0, z = 0\<rparr>" if "i < k \<and> k < n" for k
        using that by (simp add: s'(5))
      show "js_get (tm s') (k + 1) = Some (js_num (js_get (tm s') k) + dt)"
        if "i \<le> k \<and> k + 1 < n" for k
        using that by (rule tmk)
    qed
    moreover have "num s' = i" "error s' = 1"
      by (simp_all add: s'(2,3) sc_simps)
    moreover have "\<forall>k. i \<le> k \<and> k < i \<longrightarrow> stepped radius GM dt s' k"
      by auto
    ultimately have "\<exists>c. i \<le> c \<and> c + 2 \<le> n \<and> (\<forall>k. i \<le> k \<and> k < c \<longrightarrow> stepped radius GM dt s' k)
                       \<and> frozen_from radius dt n s' c \<and> num s' = c \<and> error s' = 1"
      using Suc.prems(3) by (intro exI[of _ i] conjI) simp_all
    moreover have "\<forall>k\<le>i. js_get (pos s') k = js_get (pos s) k \<and> js_get (vel s') k = js_get (vel s) k
                      \<and> js_get (tm s') k = js_get (tm s) k"
      using pre by simp
    ultimately show ?thesis
      unfolding unfold s'(1) by (intro exI[of _ s'] conjI disjI1) simp_all
  next
    case False
    define sn where "sn = s3\<lparr>num := i + 1, error := (if int i = int n - 2 then 0 else error s3)\<rparr>"
    have unfold: "planetRK2_loop n radius GM dt i s = planetRK2_loop n radius GM dt (i + 1) sn"
      using cond Suc.prems(1,2) False
      by (subst planetRK2_loop.simps) (simp add: sn_def s3_def s1_def Let_def)
    have sn_simps: "pos sn = pos s3" "vel sn = vel s3" "tm sn = tm s3" "num sn = i + 1"
      by (simp_all add: sn_def)
    have step_if: "stepped radius GM dt s' i"
      if "\<forall>k\<le>i + 1. js_get (pos s') k = js_get (pos sn) k \<and> js_get (vel s') k = js_get (vel sn) k
                      \<and> js_get (tm s') k = js_get (tm sn) k" for s'
    proof -
      have a: "js_get (pos s') i = Some p" "js_get (vel s') i = Some v"
           "js_get (tm s') i = js_get (tm s) i"
        using that Suc.prems(1,2) by (simp_all add: sn_simps pos3 vel3 tm3)
      have b: "js_get (pos s') (i + 1) = Some (fst (rk2_advance radius GM dt p v))"
           "js_get (vel s') (i + 1) = Some (snd (rk2_advance radius GM dt p v))"
           "js_get (tm s') (i + 1) = Some (js_num (js_get (tm s) i) + dt)"
        using that by (simp_all add: sn_simps pos3 vel3 tm3)
      show ?thesis
        unfolding stepped_def using a b False by simp
    qed
    have pre_if: "js_get (pos s') k = js_get (pos s) k \<and> js_get (vel s') k = js_get (vel s) k
                  \<and> js_get (tm s') k = js_get (tm s) k"
      if "\<forall>k\<le>i + 1. js_get (pos s') k = js_get (pos sn) k \<and> js_get (vel s') k = js_get (vel sn) k
                      \<and> js_get (tm s') k = js_get (tm sn) k" and "k \<le> i" for s' k
      using that by (simp add: sn_simps pos3 vel3 tm3)
    show ?thesis
    proof (cases "i + 3 \<le> n")
      case False
      then have last: "i + 2 = n" using Suc.prems(3) by linarith
      then have "\<not> int (i + 1) \<le> int n - 2" by linarith
      then have res: "planetRK2_loop n radius GM dt i s = Inr sn"
        using unfold by (simp add: loop_done)
      have "stepped radius GM dt sn i"
        by (rule step_if) simp
      moreover have "k = i" if "i \<le> k \<and> k + 2 \<le> n" for k
        using that last by linarith
      ultimately have "\<forall>k. i \<le> k \<and> k + 2 \<le> n \<longrightarrow> stepped radius GM dt sn k"
        by blast
      moreover have "num sn = n - 1" "error sn = 0"
        using last by (auto simp: sn_def)
      moreover have "\<forall>k\<le>i. js_get (pos sn) k = js_get (pos s) k \<and> js_get (vel sn) k = js_get (vel s) k
                      \<and> js_get (tm sn) k = js_get (tm s) k"
        using pre_if[of sn] by simp
      ultimately show ?thesis
        unfolding res by (intro exI[of _ sn] conjI disjI2) simp_all
    next
      case True
      have "d = n - (i + 1)" using Suc.hyps(2) by linarith
      moreover have "js_get (pos sn) (i + 1) = Some (fst (rk2_advance radius GM dt p v))"
        "js_get (vel sn) (i + 1) = Some (snd (rk2_advance radius GM dt p v))"
        by (simp_all add: sn_simps pos3 vel3)
      moreover have "i + 1 + 2 \<le> n" using True by simp
      ultimately obtain s' where s': "planetRK2_loop n radius GM dt (i + 1) sn = Inr s'"
        "\<forall>k\<le>i + 1. js_get (pos s') k = js_get (pos sn) k \<and> js_get (vel s') k = js_get (vel sn) k
                      \<and> js_get (tm s') k = js_get (tm sn) k"
        "(\<exists>c. i + 1 \<le> c \<and> c + 2 \<le> n \<and> (\<forall>k. i + 1 \<le> k \<and> k < c \<longrightarrow> stepped radius GM dt s' k)
               \<and> frozen_from radius dt n s' c \<and> num s' = c \<and> error s' = 1)
         \<or> ((\<forall>k. i + 1 \<le> k \<and> k + 2 \<le> n \<longrightarrow> stepped radius GM dt s' k)
             \<and> num s' = n - 1 \<and> error s' = 0)"
        using Suc.hyps(1)[of "i + 1" sn] by blast
      have st: "stepped radius GM dt s' i"
        using s'(2) by (rule step_if)
      have pre: "\<forall>k\<le>i. js_get (pos s') k = js_get (pos s) k \<and> js_get (vel s') k = js_get (vel s) k
                      \<and> js_get (tm s') k = js_get (tm s) k"
        using pre_if[OF s'(2)] by simp
      from s'(3) have "(\<exists>c. i \<le> c \<and> c + 2 \<le> n \<and> (\<forall>k. i \<le> k \<and> k < c \<longrightarrow> stepped radius GM dt s' k)
               \<and> frozen_from radius dt n s' c \<and> num s' = c \<and> error s' = 1)
         \<or> ((\<forall>k. i \<le> k \<and> k + 2 \<le> n \<longrightarrow> stepped radius GM dt s' k)
             \<and> num s' = n - 1 \<and> error s' = 0)"
      proof
        assume "\<exists>c. i + 1 \<le> c \<and> c + 2 \<le> n \<and> (\<forall>k. i + 1 \<le> k \<and> k < c \<longrightarrow> stepped radius GM dt s' k)
               \<and> frozen_from radius dt n s' c \<and> num s' = c \<and> error s' = 1"
        then obtain c where c: "i + 1 \<le> c" "c + 2 \<le> n"
          "\<forall>k. i + 1 \<le> k \<and> k < c \<longrightarrow> stepped radius GM dt s' k"
          "frozen_from radius dt n s' c" "num s' = c" "error s' = 1"
          by blast
        have "stepped radius GM dt s' k" if "i \<le> k \<and> k < c" for k
        proof (cases "k = i")
          case True
          then show ?thesis using st by simp
        next
          case False
          then have "i + 1 \<le> k \<and> k < c" using that by linarith
          then show ?thesis using c(3) by blast
        qed
        then have "\<forall>k. i \<le> k \<and> k < c \<longrightarrow> stepped radius GM dt s' k"
          by blast
        then show ?thesis
          using c by (intro disjI1 exI[of _ c]) simp
      next
        assume a: "(\<forall>k. i + 1 \<le> k \<and> k + 2 \<le> n \<longrightarrow> stepped radius GM dt s' k)
             \<and> num s' = n - 1 \<and> error s' = 0"
        have "stepped radius GM dt s' k" if "i \<le> k \<and> k + 2 \<le> n" for k
        proof (cases "k = i")
          case True
          then show ?thesis using st by simp
        next
          case False
          then have "i + 1 \<le> k \<and> k + 2 \<le> n" using that by linarith
          then show ?thesis using a by blast
        qed
        then have "\<forall>k. i \<le> k \<and> k + 2 \<le> n \<longrightarrow> stepped radius GM dt s' k"
          by blast
        then show ?thesis
          using a by simp
      qed
      then show ?thesis
        unfolding unfold s'(1) using pre by (intro exI[of _ s'] conjI) simp_all
    qed
  qed
qed

lemma loop_Inr_defined:
  assumes "planetRK2_loop n radius GM dt i s = Inr s'" and "i + 2 \<le> n"
  shows "\<exists>p v. js_get (pos s) i = Some p \<and> js_get (vel s) i = Some v"
proof -
  have "int i \<le> int n - 2" using assms(2) by linarith
  then show ?thesis
    using assms(1)
    by (subst (asm) planetRK2_loop.simps) (auto simp: Let_def split: option.splits)
qed

section \<open>Runs of the step loop\<close>

text \<open>
  The same for a call of \<^verbatim>\<open>planetRK2\<close> with at least two points.
\<close>

lemma planetRK2_short:
  "n \<le> 1 \<Longrightarrow> planetRK2 n num0 radius GM dt t0 pos0 vel0 error0
     = Inr \<lparr>tm = t0, pos = pos0, vel = vel0, num = 0, error = 1\<rparr>"
  by (simp add: planetRK2_def)

lemma planetRK2_long:
  "\<not> n \<le> 1 \<Longrightarrow> planetRK2 n num0 radius GM dt t0 pos0 vel0 error0
     = (case planetRK2_loop n radius GM dt 0
               \<lparr>tm = t0, pos = pos0, vel = vel0, num = num0, error = 0\<rparr> of
          Inl e \<Rightarrow> Inl e
        | Inr s \<Rightarrow> Inr (if error s = 0 then s\<lparr>num := n - 1\<rparr> else s))"
  unfolding planetRK2_def Let_def by (auto split: sum.splits)

lemma planetRK2_total:
  assumes "js_get pos0 0 = Some p" and "js_get vel0 0 = Some v"
  shows "\<exists>s. planetRK2 n num0 radius GM dt t0 pos0 vel0 error0 = Inr s"
proof (cases "n \<le> 1")
  case True
  then show ?thesis by (intro exI) (rule planetRK2_short)
next
  case False
  define s0 where "s0 = \<lparr>tm = t0, pos = pos0, vel = vel0, num = num0, error = 0\<rparr>"
  have "js_get (pos s0) 0 = Some p" "js_get (vel s0) 0 = Some v" "0 + 2 \<le> n"
    using assms False by (simp_all add: s0_def)
  from loop_spec[OF this, of radius GM dt]
  have "\<exists>s'. planetRK2_loop n radius GM dt 0 s0 = Inr s'"
    by (elim exE conjE) (rule exI)
  then obtain s' where s': "planetRK2_loop n radius GM dt 0 s0 = Inr s'" ..
  have "planetRK2 n num0 radius GM dt t0 pos0 vel0 error0
        = (case planetRK2_loop n radius GM dt 0 s0 of
             Inl e \<Rightarrow> Inl e
           | Inr s \<Rightarrow> Inr (if error s = 0 then s\<lparr>num := n - 1\<rparr> else s))"
    unfolding s0_def by (rule planetRK2_long[OF False])
  then show ?thesis
    by (simp add: s')
qed

lemma planetRK2_spec:
  assumes "planetRK2 n num0 radius GM dt t0 pos0 vel0 error0 = Inr s" and "2 \<le> n"
  shows "js_get (pos s) 0 = js_get pos0 0 \<and> js_get (vel s) 0 = js_get vel0 0
           \<and> js_get (tm s) 0 = js_get t0 0
           \<and> ((\<exists>c. c + 2 \<le> n \<and> (\<forall>k<c. stepped radius GM dt s k)
                   \<and> frozen_from radius dt n s c \<and> num s = c \<and> error s = 1)
                \<or> ((\<forall>k. k + 2 \<le> n \<longrightarrow> stepped radius GM dt s k)
                    \<and> num s = n - 1 \<and> error s = 0))"
proof -
  define s0 where "s0 = \<lparr>tm = t0, pos = pos0, vel = vel0, num = num0, error = 0\<rparr>"
  have nle: "\<not> n \<le> 1" using assms(2) by simp
  have "planetRK2 n num0 radius GM dt t0 pos0 vel0 error0
        = (case planetRK2_loop n radius GM dt 0 s0 of
             Inl e \<Rightarrow> Inl e
           | Inr s \<Rightarrow> Inr (if error s = 0 then s\<lparr>num := n - 1\<rparr> else s))"
    unfolding s0_def by (rule planetRK2_long[OF nle])
  from trans[OF sym[OF this] assms(1)]
  have "(case planetRK2_loop n radius GM dt 0 s0 of
          Inl e \<Rightarrow> Inl e
        | Inr s \<Rightarrow> Inr (if error s = 0 then s\<lparr>num := n - 1\<rparr> else s)) = Inr s" .
  then obtain s1 where s1: "planetRK2_loop n radius GM dt 0 s0 = Inr s1"
    and s: "s = (if error s1 = 0 then s1\<lparr>num := n - 1\<rparr> else s1)"
    by (cases "planetRK2_loop n radius GM dt 0 s0") auto
  have n2: "0 + 2 \<le> n" using assms(2) by simp
  obtain p v where pv: "js_get (pos s0) 0 = Some p" "js_get (vel s0) 0 = Some v"
    using loop_Inr_defined[OF s1 n2] by blast
  obtain s' where s': "planetRK2_loop n radius GM dt 0 s0 = Inr s'"
    and pre: "\<forall>k\<le>0. js_get (pos s') k = js_get (pos s0) k \<and> js_get (vel s') k = js_get (vel s0) k
                      \<and> js_get (tm s') k = js_get (tm s0) k"
    and alt: "(\<exists>c. 0 \<le> c \<and> c + 2 \<le> n \<and> (\<forall>k. 0 \<le> k \<and> k < c \<longrightarrow> stepped radius GM dt s' k)
                   \<and> frozen_from radius dt n s' c \<and> num s' = c \<and> error s' = 1)
                \<or> ((\<forall>k. 0 \<le> k \<and> k + 2 \<le> n \<longrightarrow> stepped radius GM dt s' k)
                    \<and> num s' = n - 1 \<and> error s' = 0)"
    using loop_spec[OF pv n2, of radius GM dt] by (elim exE conjE) (rule that)
  have eq1: "s' = s1"
    using s' s1 by simp
  have "error s1 = 0 \<Longrightarrow> num s1 = n - 1"
    using alt unfolding eq1 by auto
  then have same: "s = s1"
    unfolding s by simp
  have p0: "js_get (pos s) 0 = js_get pos0 0 \<and> js_get (vel s) 0 = js_get vel0 0
           \<and> js_get (tm s) 0 = js_get t0 0"
    using pre unfolding eq1 same by (simp add: s0_def)
  have "(\<exists>c. c + 2 \<le> n \<and> (\<forall>k<c. stepped radius GM dt s k)
                   \<and> frozen_from radius dt n s c \<and> num s = c \<and> error s = 1)
                \<or> ((\<forall>k. k + 2 \<le> n \<longrightarrow> stepped radius GM dt s k)
                    \<and> num s = n - 1 \<and> error s = 0)"
    using alt unfolding eq1 same by simp
  then show ?thesis
    using p0 by blast
qed

lemma list_ex_take_get:
  "list_ex (collides radius) (take i ps) = (\<exists>k<i. collides radius (js_get ps k))"
proof -
  have "list_ex (collides radius) (take i ps)
        = (\<exists>k<length (take i ps). collides radius (take i ps ! k))"
    by (simp add: list_ex_length)
  also have "\<dots> = (\<exists>k. k < i \<and> k < length ps \<and> collides radius (ps ! k))"
    by auto
  also have "\<dots> = (\<exists>k<i. collides radius (js_get ps k))"
    by (auto simp: js_get_def collides_def)
  finally show ?thesis .
qed

lemma stepped_no_collision: "stepped radius GM dt s k \<Longrightarrow> \<not> collides radius (js_get (pos s) k)"
  by (auto simp: stepped_def collides_def)

lemma frozen_collision: "frozen_from radius dt n s c \<Longrightarrow> collides radius (js_get (pos s) c)"
  by (auto simp: frozen_from_def collides_def)

lemma run_collision:
  assumes "planetRK2 n num0 radius GM dt t0 pos0 vel0 error0 = Inr s"
    and "i + 2 \<le> n" and "first_collision radius (pos s) i"
  shows "(\<forall>k<i. stepped radius GM dt s k) \<and> frozen_from radius dt n s i \<and> num s = i \<and> error s = 1"
proof -
  have n2: "2 \<le> n" using assms(2) by simp
  have ci: "collides radius (js_get (pos s) i)"
    and nb: "\<And>k. k < i \<Longrightarrow> \<not> collides radius (js_get (pos s) k)"
    using assms(3) by (auto simp: first_collision_def list_ex_take_get)
  from planetRK2_spec[OF assms(1) n2]
  consider (coll) c where "c + 2 \<le> n" "\<forall>k<c. stepped radius GM dt s k"
      "frozen_from radius dt n s c" "num s = c" "error s = 1"
    | (free) "\<forall>k. k + 2 \<le> n \<longrightarrow> stepped radius GM dt s k"
    by blast
  then show ?thesis
  proof cases
    case coll
    have "\<not> i < c"
      using coll(2) ci stepped_no_collision by blast
    moreover have "\<not> c < i"
      using nb frozen_collision[OF coll(3)] by blast
    ultimately have "c = i" by linarith
    then show ?thesis using coll by simp
  next
    case free
    then have "stepped radius GM dt s i" using assms(2) by blast
    then show ?thesis using ci stepped_no_collision by blast
  qed
qed

lemma run_error0:
  assumes "planetRK2 n num0 radius GM dt t0 pos0 vel0 error0 = Inr s"
    and "2 \<le> n" and "error s = 0"
  shows "(\<forall>k. k + 2 \<le> n \<longrightarrow> stepped radius GM dt s k) \<and> num s = n - 1"
  using planetRK2_spec[OF assms(1,2)] assms(3) by auto

lemma run_error1:
  assumes "planetRK2 n num0 radius GM dt t0 pos0 vel0 error0 = Inr s"
    and "2 \<le> n" and "error s \<noteq> 0"
  shows "num s + 2 \<le> n \<and> (\<forall>k<num s. stepped radius GM dt s k)
           \<and> frozen_from radius dt n s (num s) \<and> error s = 1"
  using planetRK2_spec[OF assms(1,2)] assms(3) by auto

lemma run_first_collision:
  assumes "\<forall>k<c. stepped radius GM dt s k" and "frozen_from radius dt n s c"
  shows "first_collision radius (pos s) c"
  using assms stepped_no_collision frozen_collision
  by (auto simp: first_collision_def list_ex_take_get)

lemma run_num_bound:
  assumes "planetRK2 n num0 radius GM dt t0 pos0 vel0 error0 = Inr s"
  shows "num s \<le> n - 1"
proof (cases "2 \<le> n")
  case True
  from planetRK2_spec[OF assms True] show ?thesis by auto
next
  case False
  then show ?thesis using assms by (auto simp: planetRK2_short)
qed

lemma run_defined:
  assumes "planetRK2 n num0 radius GM dt t0 pos0 vel0 error0 = Inr s" and "2 \<le> n" and "k < n"
  shows "\<exists>p. js_get (pos s) k = Some p"
proof -
  from planetRK2_spec[OF assms(1,2)]
  consider (coll) c where "c + 2 \<le> n" "\<forall>k<c. stepped radius GM dt s k"
      "frozen_from radius dt n s c"
    | (free) "\<forall>k. k + 2 \<le> n \<longrightarrow> stepped radius GM dt s k"
    by blast
  then show ?thesis
  proof cases
    case coll
    show ?thesis
    proof (cases "k < c")
      case True
      then show ?thesis using coll(2) by (auto simp: stepped_def)
    next
      case False
      then show ?thesis using coll(3) assms(3) by (auto simp: frozen_from_def)
    qed
  next
    case free
    show ?thesis
    proof (cases "k + 2 \<le> n")
      case True
      then show ?thesis using free by (auto simp: stepped_def)
    next
      case False
      then have "k = (n - 2) + 1" "(n - 2) + 2 \<le> n" using assms(2,3) by linarith+
      then show ?thesis using free by (auto simp: stepped_def)
    qed
  qed
qed

section \<open>The sampler and the entry point\<close>

text \<open>
  The sampler as a map over the indices, and \<^verbatim>\<open>calculateOrbit\<close> in
  terms of the run it starts.
\<close>

lemma sampler_loop:
  assumes "i \<le> n"
  shows "samplePlanarOrbit_loop (real n) radius i out
         = out @ map (\<lambda>k. \<lparr>x = Num (radius * cos (real k / real n * 2 * pi)),
                             y = Num (radius * sin (real k / real n * 2 * pi)), z = 0\<rparr>) [i..<n]"
  using assms
proof (induction "n - i" arbitrary: i out)
  case 0
  then have "i = n" by simp
  then show ?case by (subst samplePlanarOrbit_loop.simps) simp
next
  case (Suc d)
  then have lt: "i < n" and d: "d = n - (i + 1)" and le: "i + 1 \<le> n" by linarith+
  have "[i..<n] = i # [i + 1..<n]"
    using lt by (simp add: upt_conv_Cons)
  then show ?case
    using lt Suc.hyps(1)[OF d le]
    by (subst samplePlanarOrbit_loop.simps) (simp add: Let_def)
qed

lemma sampler_one: "samplePlanarOrbit 1 0.1 = [\<lparr>x = 0.1, y = 0, z = 0\<rparr>]"
  using sampler_loop[of 0 1 "0.1" "[]"] by (simp add: samplePlanarOrbit_def)

lemma fallback_value: "fallback = ([Some \<lparr>x = 0.1, y = 0, z = 0\<rparr>], 0)"
  by (simp add: fallback_def sampler_one)

lemma hypot3_pow: "js_sqrt ((x p)\<^sup>2 + (y p)\<^sup>2 + (z p)\<^sup>2) = hypot3 p"
  by (simp only: hypot3_def power2_eq_square)

lemma timeStep_pos: "\<not> timeStep \<le> 0"
  by (simp add: timeStep_def)

lemma calculateOrbit_guard:
  assumes "\<not> reaches_loop finalTime p0 v0"
  shows "calculateOrbit finalTime p0 v0 radius = fallback"
  using assms
  unfolding calculateOrbit_def calculateOrbit_try_def reaches_loop_def new_Array_def Let_def hypot3_pow
  by (auto split: sum.splits)

lemma minus_divide_jsnum: "(- a) / b = - (a / b)" for a b :: jsnum
  by (cases a; cases b) simp_all

lemma energy_code:
  "0.5 * 1 * (hypot3 v0)\<^sup>2
     + 1 * (- (4 * Num pi * Num pi) / hypot3 p0
            + ((0.75 * (4 * Num pi * Num pi) * radius\<^sup>2 * (z p0)\<^sup>2) / hypot3 p0 ^ 5)
            - ((0.25 * (4 * Num pi * Num pi) * radius\<^sup>2) / hypot3 p0 ^ 3))
   = energy_spec p0 v0 radius"
proof -
  have g: "4 * Num pi * Num pi = 4 * (Num pi)\<^sup>2"
    by (simp only: power2_eq_square mult.assoc)
  show ?thesis
    unfolding energy_spec_def Let_def g
    by (simp only: mult_1 mult_1_right diff_conv_jsnum minus_divide_jsnum add.assoc)
qed

lemma calculateOrbit_run:
  assumes "reaches_loop finalTime p0 v0" and "orbit_run finalTime p0 v0 radius = Inr s"
  shows "calculateOrbit finalTime p0 v0 radius
         = (if num s < 2 then fallback
            else (take (num s + 1) (pos s), energy_spec p0 v0 radius))"
  using assms
  unfolding calculateOrbit_def calculateOrbit_try_def reaches_loop_def orbit_run_def new_Array_def
    Let_def hypot3_pow js_slice0_def energy_code
  by (auto simp: timeStep_pos split: sum.splits)

lemma orbit_run_total: "\<exists>s. orbit_run finalTime p0 v0 radius = Inr s"
  unfolding orbit_run_def Let_def
  by (rule planetRK2_total[where p = p0 and v = v0]) (simp_all add: js_get_set)

section \<open>Runs without and with a collision\<close>

lemma no_collision_nonpos: "radius \<le> 0 \<Longrightarrow> \<not> collides radius e"
  by (auto simp: collides_def hypot3_not_less split: option.splits)


lemma run_no_collision:
  assumes "planetRK2 n num0 radius GM dt t0 pos0 vel0 error0 = Inr s"
    and "2 \<le> n" and "\<not> list_ex (collides radius) (take (n - 1) (pos s))"
  shows "(\<forall>k. k + 2 \<le> n \<longrightarrow> stepped radius GM dt s k) \<and> num s = n - 1 \<and> error s = 0"
proof -
  from planetRK2_spec[OF assms(1,2)]
  consider (coll) c where "c + 2 \<le> n" "frozen_from radius dt n s c"
    | (free) "(\<forall>k. k + 2 \<le> n \<longrightarrow> stepped radius GM dt s k) \<and> num s = n - 1 \<and> error s = 0"
    by auto
  then show ?thesis
  proof cases
    case coll
    have "c < n - 1" using coll(1) by linarith
    then have "list_ex (collides radius) (take (n - 1) (pos s))"
      unfolding list_ex_take_get using frozen_collision[OF coll(2)] by blast
    then show ?thesis using assms(3) by simp
  next
    case free
    then show ?thesis .
  qed
qed

lemma run_stepped_before:
  assumes "planetRK2 n num0 radius GM dt t0 pos0 vel0 error0 = Inr s"
    and "i + 2 \<le> n" and "\<not> list_ex (collides radius) (take (i + 1) (pos s))"
  shows "stepped radius GM dt s i"
proof -
  have n2: "2 \<le> n" using assms(2) by simp
  from planetRK2_spec[OF assms(1) n2]
  consider (coll) c where "\<forall>k<c. stepped radius GM dt s k" "frozen_from radius dt n s c"
    | (free) "\<forall>k. k + 2 \<le> n \<longrightarrow> stepped radius GM dt s k"
    by auto
  then show ?thesis
  proof cases
    case coll
    have "\<not> c < i + 1"
      using assms(3) frozen_collision[OF coll(2)] unfolding list_ex_take_get by blast
    then have "i < c" by linarith
    then show ?thesis using coll(1) by blast
  next
    case free
    then show ?thesis using assms(2) by blast
  qed
qed







lemma finite_num_zero:
  "finite_num a \<Longrightarrow> 0 * a = 0" "finite_num a \<Longrightarrow> a * 0 = 0" "(0 :: jsnum) / 2 = 0"
  "(0 :: jsnum) + 0 = 0" "(0 :: jsnum) - 0 = 0"
  by (cases a; simp add: finite_num_def)+








lemma orbit_run_short:
  assumes "orbit_run finalTime p0 v0 radius = Inr s" and "2 \<le> num s"
  shows "3 \<le> nat \<bar>round (finalTime / timeStep)\<bar>"
  using run_num_bound[OF assms(1)[unfolded orbit_run_def Let_def]] assms(2) by linarith

lemma calculateOrbit_success:
  assumes "reaches_loop finalTime p0 v0" and "orbit_run finalTime p0 v0 radius = Inr s"
    and "2 \<le> num s"
  shows "calculateOrbit finalTime p0 v0 radius = (take (num s + 1) (pos s), energy_spec p0 v0 radius)"
    and "length (take (num s + 1) (pos s)) = num s + 1"
    and "k \<le> num s \<Longrightarrow> take (num s + 1) (pos s) ! k = js_get (pos s) k"
    and "js_get (pos s) 0 = Some p0"
proof -
  let ?n = "nat \<bar>round (finalTime / timeStep)\<bar>"
  note run = assms(2)[unfolded orbit_run_def Let_def]
  have n3: "3 \<le> ?n" using orbit_run_short[OF assms(2,3)] .
  then have n2: "2 \<le> ?n" by simp
  show "calculateOrbit finalTime p0 v0 radius = (take (num s + 1) (pos s), energy_spec p0 v0 radius)"
    using calculateOrbit_run[OF assms(1,2)] assms(3) by simp
  have "num s < ?n" using run_num_bound[OF run] n2 by linarith
  from run_defined[OF run n2 this] obtain p where "js_get (pos s) (num s) = Some p" ..
  then have len: "num s < length (pos s)"
    by (simp add: js_get_defined)
  then show "length (take (num s + 1) (pos s)) = num s + 1" by simp
  show "take (num s + 1) (pos s) ! k = js_get (pos s) k" if "k \<le> num s"
    using that len by (simp add: js_get_def)
  show "js_get (pos s) 0 = Some p0"
    using planetRK2_spec[OF run n2] by (simp add: js_get_set)
qed

lemma circle_norm: "sqrt ((r * cos a) * (r * cos a) + (r * sin a) * (r * sin a)) = \<bar>r\<bar>"
proof -
  have "(r * cos a) * (r * cos a) + (r * sin a) * (r * sin a) = r\<^sup>2 * ((cos a)\<^sup>2 + (sin a)\<^sup>2)"
    by algebra
  also have "\<dots> = r\<^sup>2"
    by (simp only: sin_cos_squared_add2 mult_1_right)
  finally show ?thesis
    by (simp only: real_sqrt_abs)
qed

section \<open>Two concrete runs\<close>

text \<open>
  The call that \<^verbatim>\<open>calculateOrbit\<close> makes for a body that starts
  inside the attractor, with a collision at index 0 among three points, and a single step
  of a body at rest.
\<close>

lemma hypot3_Num [simp]:
  "hypot3 \<lparr>x = Num a, y = Num b, z = Num c\<rparr> = Num (sqrt (a * a + b * b + c * c))"
proof -
  have "\<not> a * a + b * b + c * c < 0"
    by (simp add: not_less add_nonneg_nonneg)
  then show ?thesis
    by (simp add: hypot3_def)
qed

lemma run_with_collision_at_start:
  "planetRK2 3 0 2 (4 * Num pi * Num pi) 0.1 [Some 0, None, None]
      [Some \<lparr>x = 1, y = 0, z = 0\<rparr>, None, None]
      [Some \<lparr>x = 1, y = 0, z = 0\<rparr>, None, None] 0
   = Inr \<lparr>tm = [Some 0, Some 0.1, Some 0.2],
          pos = [Some \<lparr>x = 1, y = 0, z = 0\<rparr>, Some \<lparr>x = 1, y = 0, z = 0\<rparr>,
                 Some \<lparr>x = 1, y = 0, z = 0\<rparr>],
          vel = [Some \<lparr>x = 1, y = 0, z = 0\<rparr>, Some \<lparr>x = 0, y = 0, z = 0\<rparr>,
                 Some \<lparr>x = 0, y = 0, z = 0\<rparr>],
          num = 0, error = 1\<rparr>"
  by (simp add: planetRK2_def planetRK2_loop.simps freeze.simps js_get_def js_num_def js_set_def
      Let_def)

lemma run_of_one_step:
  "planetRK2 2 0 0 1 0.1 [Some 0, None]
      [Some \<lparr>x = 1, y = 0, z = 0\<rparr>, None]
      [Some \<lparr>x = 0, y = 0, z = 0\<rparr>, None] 0
   = Inr \<lparr>tm = [Some 0, Some 0.1],
          pos = [Some \<lparr>x = 1, y = 0, z = 0\<rparr>, Some \<lparr>x = 0.995, y = 0, z = 0\<rparr>],
          vel = [Some \<lparr>x = 0, y = 0, z = 0\<rparr>, Some \<lparr>x = - 0.1, y = 0, z = 0\<rparr>],
          num = 1, error = 0\<rparr>"
  by (simp add: planetRK2_def planetRK2_loop.simps freeze.simps js_get_def js_num_def js_set_def
      Let_def rk2_advance_def sq_def)

section \<open>The velocity update\<close>

text \<open>
  The velocity that a step writes, in the words of the specification. Sums and products
  of numbers with special values are associative and commutative, and a quotient is the
  product with the inverse, so the two forms agree also when a radius is 0.
\<close>

lemma force_terms:
  fixes r :: jsnum
  shows "GM / (r * r * r) + - 3.75 * ((GM * R * R) / (r * r * r * (r * r) * (r * r))) * (c * c)
           + 0.75 * ((GM * R * R) / (r * r * r * (r * r)))
         = GM / r ^ 3 + - 3.75 * GM * R\<^sup>2 * c\<^sup>2 / r ^ 7 + 0.75 * GM * R\<^sup>2 / r ^ 5"
    and "1.5 * ((GM * R * R) / (r * r * r * (r * r))) = 1.5 * GM * R\<^sup>2 / r ^ 5"
proof -
  have p: "r * r * r = r ^ 3" "r ^ 3 * (r * r) = r ^ 5" "r ^ 5 * (r * r) = r ^ 7"
    by (simp_all add: eval_nat_numeral mult.assoc del: one_jsnum_def zero_jsnum_def)
  show "GM / (r * r * r) + - 3.75 * ((GM * R * R) / (r * r * r * (r * r) * (r * r))) * (c * c)
           + 0.75 * ((GM * R * R) / (r * r * r * (r * r)))
         = GM / r ^ 3 + - 3.75 * GM * R\<^sup>2 * c\<^sup>2 / r ^ 7 + 0.75 * GM * R\<^sup>2 / r ^ 5"
    unfolding p power2_eq_square divide_inverse_jsnum
    by (simp only: mult.assoc mult.commute[of "inverse (r ^ 7)"])
  show "1.5 * ((GM * R * R) / (r * r * r * (r * r))) = 1.5 * GM * R\<^sup>2 / r ^ 5"
    unfolding p power2_eq_square divide_inverse_jsnum
    by (simp only: mult.assoc)
qed

lemma half_step_axpy: "half_step dt p v = axpy (dt / 2) v p"
  unfolding half_step_def axpy_def divide_inverse_jsnum
  by (simp only: mult.assoc mult.commute[of "inverse 2"])

lemma advance_velocity:
  "snd (rk2_advance radius GM dt p v) = axpy dt (accel_spec radius GM (axpy (dt / 2) v p)) v"
proof -
  define h where "h = half_step dt p v"
  let ?B = "GM / hypot3 h ^ 3 + - 3.75 * GM * radius\<^sup>2 * (z h)\<^sup>2 / hypot3 h ^ 7
            + 0.75 * GM * radius\<^sup>2 / hypot3 h ^ 5"
  let ?q = "1.5 * GM * radius\<^sup>2 / hypot3 h ^ 5"
  have hx: "x p + (dt * x v) / 2 = x h" and hy: "y p + (dt * y v) / 2 = y h"
    and hz: "z p + (dt * z v) / 2 = z h"
    by (simp_all add: h_def half_step_def)
  have eta: "\<lparr>x = x h, y = y h, z = z h\<rparr> = h" by simp
  have neg: "a - dt * b * c = a + dt * (- b * c)" for a b c :: jsnum
    by (simp only: diff_conv_jsnum minus_mult_jsnum mult.assoc)
  have "snd (rk2_advance radius GM dt p v)
        = \<lparr>x = x v - dt * x h * ?B, y = y v - dt * y h * ?B, z = z v - dt * z h * (?B + ?q)\<rparr>"
    unfolding rk2_advance_def Let_def snd_conv hx hy hz eta sq_def force_terms
    by (rule refl)
  also have "\<dots> = axpy dt (accel_spec radius GM h) v"
    unfolding axpy_def accel_spec_def Let_def Vec3.simps neg
    by (rule refl)
  finally show ?thesis
    unfolding h_def half_step_axpy .
qed

section \<open>Concrete orbits\<close>

lemma calculateOrbit_free:
  assumes "reaches_loop finalTime p0 v0" and "3 \<le> \<bar>round (finalTime / timeStep)\<bar>"
    and "orbit_run finalTime p0 v0 radius = Inr s"
    and "\<not> list_ex (collides radius) (take (nat \<bar>round (finalTime / timeStep)\<bar> - 1) (pos s))"
  shows "calculateOrbit finalTime p0 v0 radius
         = (take (nat \<bar>round (finalTime / timeStep)\<bar>) (pos s), energy_spec p0 v0 radius)"
    and "length (take (nat \<bar>round (finalTime / timeStep)\<bar>) (pos s))
         = nat \<bar>round (finalTime / timeStep)\<bar>"
    and "error s = 0"
proof -
  let ?n = "nat \<bar>round (finalTime / timeStep)\<bar>"
  note run = assms(3)[unfolded orbit_run_def Let_def]
  have n3: "3 \<le> ?n" using assms(2) by linarith
  then have n2: "2 \<le> ?n" by simp
  from run_no_collision[OF run n2 assms(4)]
  have num: "num s = ?n - 1" and "error s = 0" by simp_all
  then show "error s = 0" by simp
  have big: "2 \<le> num s" and suc: "num s + 1 = ?n" using num n3 by linarith+
  note ok = calculateOrbit_success[OF assms(1,3) big]
  show "calculateOrbit finalTime p0 v0 radius = (take ?n (pos s), energy_spec p0 v0 radius)"
    using ok(1) unfolding suc .
  show "length (take ?n (pos s)) = ?n"
    using ok(2) unfolding suc .
qed

lemma norm_ge_y: "\<bar>b\<bar> \<le> sqrt (a * a + b * b + c * c)" for a b c :: real
proof -
  have "\<bar>b\<bar> = sqrt (b * b)" by simp
  also have "\<dots> \<le> sqrt (a * a + b * b + c * c)"
    by (intro real_sqrt_le_mono) simp
  finally show ?thesis .
qed


lemma GM_Num: "4 * Num pi * Num pi = Num (4 * pi * pi)"
  by simp

lemma points_of_time:
  "\<bar>round (0.2 / timeStep)\<bar> = 2" "\<bar>round (0.3 / timeStep)\<bar> = 3"
  "\<bar>round (0.4 / timeStep)\<bar> = 4" "\<bar>round (1 / timeStep)\<bar> = 10"
  "\<bar>round (0 / timeStep)\<bar> = 0"
  by (simp_all add: timeStep_def)

lemma calculateOrbit_two_points:
  assumes "\<bar>round (finalTime / timeStep)\<bar> = 2"
  shows "calculateOrbit finalTime p0 v0 radius = fallback"
proof (cases "reaches_loop finalTime p0 v0")
  case True
  obtain s where s: "orbit_run finalTime p0 v0 radius = Inr s"
    using orbit_run_total by blast
  have "num s \<le> 2 - 1"
    using run_num_bound[OF s[unfolded orbit_run_def Let_def]] assms by simp
  then show ?thesis
    using calculateOrbit_run[OF True s] by simp
next
  case False
  then show ?thesis by (rule calculateOrbit_guard)
qed

lemma first_step_stays_outside:
  "\<not> hypot3 (fst (rk2_advance 0.1 (4 * Num pi * Num pi) (Num timeStep)
                     \<lparr>x = 1, y = 0, z = 0\<rparr> \<lparr>x = 0, y = 1, z = 0\<rparr>)) < 0.1"
proof -
  have "\<exists>a. fst (rk2_advance 0.1 (4 * Num pi * Num pi) (Num timeStep)
                  \<lparr>x = 1, y = 0, z = 0\<rparr> \<lparr>x = 0, y = 1, z = 0\<rparr>)
             = \<lparr>x = Num a, y = Num 0.1, z = Num 0\<rparr>"
    by (simp add: rk2_advance_def Let_def timeStep_def sq_def)
  then obtain a where "fst (rk2_advance 0.1 (4 * Num pi * Num pi) (Num timeStep)
                  \<lparr>x = 1, y = 0, z = 0\<rparr> \<lparr>x = 0, y = 1, z = 0\<rparr>)
             = \<lparr>x = Num a, y = Num 0.1, z = Num 0\<rparr>" ..
  then show ?thesis
    using norm_ge_y[of "0.1" a 0] by (simp add: not_less)
qed

section \<open>A radial infall\<close>

text \<open>
  A body at (10, 0, 0) with velocity (-40, 0, 0) falls along the x-axis into an attractor
  of radius 5; the force factor stays between 0 and 1 outside the attractor.
\<close>

lemma force_bound:
  fixes r :: real
  assumes "5 \<le> r" and "0 \<le> GM" and "GM \<le> 64"
  shows "0 \<le> GM / (r * r * r) + 0.75 * ((GM * 5 * 5) / (r * r * r * (r * r)))"
    and "GM / (r * r * r) + 0.75 * ((GM * 5 * 5) / (r * r * r * (r * r))) \<le> 1"
proof -
  have r0: "0 \<le> r" using assms(1) by simp
  have c3: "5 ^ 3 \<le> r ^ 3" and c5: "5 ^ 5 \<le> r ^ 5"
    using assms(1) by (intro power_mono; simp)+
  have e3: "r * r * r = r ^ 3" and e5: "r ^ 3 * (r * r) = r ^ 5"
    by (simp_all add: eval_nat_numeral)
  define u where "u = GM / r ^ 3"
  define w where "w = (GM * 5 * 5) / r ^ 5"
  have "u \<le> 64 / 5 ^ 3"
    unfolding u_def using assms(2,3) c3 by (intro frac_le) simp_all
  moreover have "w \<le> (64 * 5 * 5) / 5 ^ 5"
    unfolding w_def using assms(2,3) c5 by (intro frac_le) simp_all
  moreover have "0 \<le> u" "0 \<le> w"
    unfolding u_def w_def using assms(2) r0 by simp_all
  ultimately have "0 \<le> u + 0.75 * w" "u + 0.75 * w \<le> 1"
    by simp_all
  then show "0 \<le> GM / (r * r * r) + 0.75 * ((GM * 5 * 5) / (r * r * r * (r * r)))"
    and "GM / (r * r * r) + 0.75 * ((GM * 5 * 5) / (r * r * r * (r * r))) \<le> 1"
    unfolding e3 e5 u_def w_def by simp_all
qed

lemma axis_position:
  assumes "5 \<le> \<bar>a\<bar>" and "0 \<le> GM" and "GM \<le> 64"
  shows "\<exists>A. 0 \<le> A \<and> A \<le> 1
           \<and> fst (rk2_advance 5 (Num GM) (Num dt) \<lparr>x = Num a, y = 0, z = 0\<rparr>
                    \<lparr>x = Num b, y = 0, z = 0\<rparr>)
             = \<lparr>x = Num (a + dt * (b - dt * a * A / 2)), y = 0, z = 0\<rparr>"
proof -
  let ?A = "GM / (\<bar>a\<bar> * \<bar>a\<bar> * \<bar>a\<bar>) + 0.75 * ((GM * 5 * 5) / (\<bar>a\<bar> * \<bar>a\<bar> * \<bar>a\<bar> * (\<bar>a\<bar> * \<bar>a\<bar>)))"
  have nz: "a \<noteq> 0" using assms(1) by auto
  have "fst (rk2_advance 5 (Num GM) (Num dt) \<lparr>x = Num a, y = 0, z = 0\<rparr> \<lparr>x = Num b, y = 0, z = 0\<rparr>)
        = \<lparr>x = Num (a + dt * (b - dt * a * ?A / 2)), y = 0, z = 0\<rparr>"
    using nz by (simp add: rk2_advance_def Let_def sq_def)
  then show ?thesis
    using force_bound[OF assms] by (intro exI[of _ ?A] conjI)
qed

lemma axis_velocity:
  assumes "5 \<le> \<bar>a + dt * b / 2\<bar>" and "0 \<le> GM" and "GM \<le> 64"
  shows "\<exists>B. 0 \<le> B \<and> B \<le> 1
           \<and> snd (rk2_advance 5 (Num GM) (Num dt) \<lparr>x = Num a, y = 0, z = 0\<rparr>
                    \<lparr>x = Num b, y = 0, z = 0\<rparr>)
             = \<lparr>x = Num (b - dt * (a + dt * b / 2) * B), y = 0, z = 0\<rparr>"
proof -
  let ?h = "\<bar>a + dt * b / 2\<bar>"
  let ?B = "GM / (?h * ?h * ?h) + 0.75 * ((GM * 5 * 5) / (?h * ?h * ?h * (?h * ?h)))"
  have nz: "a + dt * b / 2 \<noteq> 0" using assms(1) by auto
  have "snd (rk2_advance 5 (Num GM) (Num dt) \<lparr>x = Num a, y = 0, z = 0\<rparr> \<lparr>x = Num b, y = 0, z = 0\<rparr>)
        = \<lparr>x = Num (b - dt * (a + dt * b / 2) * ?B), y = 0, z = 0\<rparr>"
    using nz by (simp add: rk2_advance_def Let_def sq_def)
  then show ?thesis
    using force_bound[OF assms] by (intro exI[of _ ?B] conjI)
qed

lemma GM_bounds: "0 \<le> 4 * pi * pi" "4 * pi * pi \<le> 64"
proof -
  have "pi * pi \<le> 4 * 4"
    using pi_less_4 pi_gt_zero by (intro mult_mono) simp_all
  then show "4 * pi * pi \<le> 64" by simp
  show "0 \<le> 4 * pi * pi" by simp
qed

lemma infall_positions:
  obtains x1 v1 x2 where
    "rk2_advance 5 (4 * Num pi * Num pi) (Num timeStep) \<lparr>x = 10, y = 0, z = 0\<rparr>
       \<lparr>x = - 40, y = 0, z = 0\<rparr>
     = (\<lparr>x = Num x1, y = 0, z = 0\<rparr>, \<lparr>x = Num v1, y = 0, z = 0\<rparr>)"
    "fst (rk2_advance 5 (4 * Num pi * Num pi) (Num timeStep) \<lparr>x = Num x1, y = 0, z = 0\<rparr>
            \<lparr>x = Num v1, y = 0, z = 0\<rparr>)
     = \<lparr>x = Num x2, y = 0, z = 0\<rparr>"
    "5 \<le> x1" "\<bar>x2\<bar> < 5"
proof -
  let ?GM = "4 * pi * pi"
  have P: "\<lparr>x = 10, y = 0, z = 0\<rparr> = \<lparr>x = Num 10, y = 0, z = 0\<rparr>"
    and V: "\<lparr>x = - 40, y = 0, z = 0\<rparr> = \<lparr>x = Num (- 40), y = 0, z = 0\<rparr>"
    by simp_all
  obtain A where A: "0 \<le> A" "A \<le> 1"
    "fst (rk2_advance 5 (Num ?GM) (Num timeStep) \<lparr>x = Num 10, y = 0, z = 0\<rparr>
            \<lparr>x = Num (- 40), y = 0, z = 0\<rparr>)
     = \<lparr>x = Num (10 + timeStep * (- 40 - timeStep * 10 * A / 2)), y = 0, z = 0\<rparr>"
    using axis_position[of 10 ?GM timeStep "- 40"] GM_bounds by auto
  obtain B where B: "0 \<le> B" "B \<le> 1"
    "snd (rk2_advance 5 (Num ?GM) (Num timeStep) \<lparr>x = Num 10, y = 0, z = 0\<rparr>
            \<lparr>x = Num (- 40), y = 0, z = 0\<rparr>)
     = \<lparr>x = Num (- 40 - timeStep * (10 + timeStep * (- 40) / 2) * B), y = 0, z = 0\<rparr>"
    using axis_velocity[of 10 timeStep "- 40" ?GM] GM_bounds by (auto simp: timeStep_def)
  define x1 where "x1 = 10 + timeStep * (- 40 - timeStep * 10 * A / 2)"
  define v1 where "v1 = - 40 - timeStep * (10 + timeStep * (- 40) / 2) * B"
  have x1: "x1 = 6 - A / 20" and v1: "v1 = - 40 - 4 * B / 5"
    by (simp_all add: x1_def v1_def timeStep_def field_simps)
  have x1b: "5 \<le> x1" "x1 \<le> 6" and v1b: "- 41 \<le> v1" "v1 \<le> - 40"
    using A(1,2) B(1,2) by (simp_all add: x1 v1)
  obtain C where C: "0 \<le> C" "C \<le> 1"
    "fst (rk2_advance 5 (Num ?GM) (Num timeStep) \<lparr>x = Num x1, y = 0, z = 0\<rparr>
            \<lparr>x = Num v1, y = 0, z = 0\<rparr>)
     = \<lparr>x = Num (x1 + timeStep * (v1 - timeStep * x1 * C / 2)), y = 0, z = 0\<rparr>"
    using axis_position[of x1 ?GM timeStep v1] GM_bounds x1b by auto
  define x2 where "x2 = x1 + timeStep * (v1 - timeStep * x1 * C / 2)"
  have x2: "x2 = x1 + v1 / 10 - x1 * C / 200"
    by (simp add: x2_def timeStep_def field_simps)
  have "0 \<le> x1 * C" "x1 * C \<le> 6 * 1"
    using x1b C(1,2) by (simp, intro mult_mono) simp_all
  then have "\<bar>x2\<bar> < 5"
    using x1b v1b by (simp add: x2)
  moreover have "rk2_advance 5 (4 * Num pi * Num pi) (Num timeStep) \<lparr>x = 10, y = 0, z = 0\<rparr>
                   \<lparr>x = - 40, y = 0, z = 0\<rparr>
                 = (\<lparr>x = Num x1, y = 0, z = 0\<rparr>, \<lparr>x = Num v1, y = 0, z = 0\<rparr>)"
    using A(3) B(3) unfolding x1_def v1_def GM_Num P V by (simp add: prod_eq_iff)
  moreover have "fst (rk2_advance 5 (4 * Num pi * Num pi) (Num timeStep)
                        \<lparr>x = Num x1, y = 0, z = 0\<rparr> \<lparr>x = Num v1, y = 0, z = 0\<rparr>)
                 = \<lparr>x = Num x2, y = 0, z = 0\<rparr>"
    using C(3) unfolding x2_def GM_Num .
  ultimately show ?thesis
    using that x1b(1) by blast
qed

lemma points_of_negative_time:
  "\<bar>round (- 0.45 / timeStep)\<bar> = 4" "round (\<bar>- 0.45\<bar> / (0.1 :: real)) = 5"
  by (simp_all add: timeStep_def round_def)

lemma early_infall:
  "\<exists>x1. fst (rk2_advance 5 (4 * Num pi * Num pi) (Num timeStep) \<lparr>x = 10, y = 0, z = 0\<rparr>
               \<lparr>x = - 60, y = 0, z = 0\<rparr>)
          = \<lparr>x = Num x1, y = 0, z = 0\<rparr> \<and> \<bar>x1\<bar> < 5"
proof -
  have P: "\<lparr>x = 10, y = 0, z = 0\<rparr> = \<lparr>x = Num 10, y = 0, z = 0\<rparr>"
    and V: "\<lparr>x = - 60, y = 0, z = 0\<rparr> = \<lparr>x = Num (- 60), y = 0, z = 0\<rparr>"
    by simp_all
  obtain A where A: "0 \<le> A" "A \<le> 1"
    "fst (rk2_advance 5 (Num (4 * pi * pi)) (Num timeStep) \<lparr>x = Num 10, y = 0, z = 0\<rparr>
            \<lparr>x = Num (- 60), y = 0, z = 0\<rparr>)
     = \<lparr>x = Num (10 + timeStep * (- 60 - timeStep * 10 * A / 2)), y = 0, z = 0\<rparr>"
    using axis_position[of 10 "4 * pi * pi" timeStep "- 60"] GM_bounds by auto
  have "10 + timeStep * (- 60 - timeStep * 10 * A / 2) = 4 - A / 20"
    by (simp add: timeStep_def field_simps)
  then have "\<bar>10 + timeStep * (- 60 - timeStep * 10 * A / 2)\<bar> < 5"
    using A(1,2) by simp
  then show ?thesis
    using A(3) unfolding GM_Num P V by blast
qed

section \<open>A step through the origin\<close>



section \<open>The claims\<close>

subsection \<open>C1: the energy\<close>

text \<open>
  Claim C1. Whenever \<^verbatim>\<open>calculateOrbit\<close> does not return the fallback, the energy it
  returns is \<open>0.5 v0\<^sup>2 - GM / r0 + 0.75 GM R\<^sup>2 z0\<^sup>2 / r0\<^sup>5 - 0.25 GM R\<^sup>2 / r0\<^sup>3\<close> with
  \<open>GM = 4 \<pi>\<^sup>2\<close>, \<open>r0\<close> and \<open>v0\<close> the magnitudes of the initial position and velocity,
  \<open>z0\<close> the initial z-component and \<open>R\<close> the attractor radius: a function of the initial
  state only, not of the trajectory.
\<close>

theorem energy_from_initial_state:
  assumes "calculateOrbit finalTime initialPosition initialVelocity attractorRadius \<noteq> fallback"
  shows "snd (calculateOrbit finalTime initialPosition initialVelocity attractorRadius)
         = energy_spec initialPosition initialVelocity attractorRadius"
proof -
  have reach: "reaches_loop finalTime initialPosition initialVelocity"
    using assms calculateOrbit_guard by blast
  obtain s where s: "orbit_run finalTime initialPosition initialVelocity attractorRadius = Inr s"
    using orbit_run_total by blast
  show ?thesis
    using calculateOrbit_run[OF reach s] assms by (simp split: if_splits)
qed

text \<open>
  A run of three points from (1, 0, 0) with velocity (0, 1, 0) around a point mass does
  not fall back, and its energy is \<open>1 / 2 - 4 \<pi>\<^sup>2\<close>.
\<close>

theorem energy_from_initial_state_witness:
  "calculateOrbit 0.3 \<lparr>x = 1, y = 0, z = 0\<rparr> \<lparr>x = 0, y = 1, z = 0\<rparr> 0 \<noteq> fallback
   \<and> snd (calculateOrbit 0.3 \<lparr>x = 1, y = 0, z = 0\<rparr> \<lparr>x = 0, y = 1, z = 0\<rparr> 0) = Num (1 / 2 - 4 * pi\<^sup>2)"
proof -
  let ?P = "\<lparr>x = 1, y = 0, z = 0\<rparr>" and ?V = "\<lparr>x = 0, y = 1, z = 0\<rparr>"
  have reach: "reaches_loop 0.3 ?P ?V"
    unfolding reaches_loop_def points_of_time by simp
  obtain s where s: "orbit_run 0.3 ?P ?V 0 = Inr s"
    using orbit_run_total by blast
  have free: "\<not> list_ex (collides 0) (take (nat \<bar>round (0.3 / timeStep)\<bar> - 1) (pos s))"
    unfolding list_ex_take_get by (simp add: no_collision_nonpos)
  have three: "3 \<le> \<bar>round (0.3 / timeStep)\<bar>"
    unfolding points_of_time by simp
  have "length (fst (calculateOrbit 0.3 ?P ?V 0)) = 3"
    using calculateOrbit_free(1,2)[OF reach three s free] unfolding points_of_time by simp
  then have ne: "calculateOrbit 0.3 ?P ?V 0 \<noteq> fallback"
    by (auto simp: fallback_value)
  have "energy_spec ?P ?V 0 = Num (1 / 2 - 4 * pi\<^sup>2)"
    by (simp add: energy_spec_def Let_def)
  then show ?thesis
    using ne energy_from_initial_state[OF ne] by simp
qed

subsection \<open>C2: the frozen tail\<close>

text \<open>
  Claim C2, as amended. Let \<open>i\<close> be the first step index at which the radius of
  \<^verbatim>\<open>pos[i]\<close> is below the attractor radius. After \<^verbatim>\<open>planetRK2\<close>, every position entry
  from index \<open>i\<close> to index \<open>n - 1\<close> equals \<^verbatim>\<open>pos[i]\<close>, every velocity entry from
  index \<open>i + 1\<close> to index \<open>n - 1\<close> is (0, 0, 0), every time entry after index \<open>i\<close>
  is its predecessor plus \<open>dt\<close>, and the call reports \<open>num = i\<close> with error flag 1.
  The velocity entry at index \<open>i\<close> itself is not written by the freezing loop and keeps
  the value it had: the velocity the caller passed in when \<open>i = 0\<close>, and otherwise the
  velocity that step \<open>i - 1\<close> computed from the entries at index \<open>i - 1\<close>.
\<close>

theorem frozen_tail_after_collision:
  assumes "planetRK2 n num0 radius GM dt t0 pos0 vel0 error0 = Inr s"
    and "i + 2 \<le> n" and "first_collision radius (pos s) i"
  shows "\<exists>p. js_get (pos s) i = Some p \<and> hypot3 p < radius
           \<and> (\<forall>k. i \<le> k \<and> k < n \<longrightarrow> js_get (pos s) k = Some p)
           \<and> (\<forall>k. i < k \<and> k < n \<longrightarrow> js_get (vel s) k = Some \<lparr>x = 0, y = 0, z = 0\<rparr>)
           \<and> (\<forall>k. i \<le> k \<and> k + 1 < n
                  \<longrightarrow> js_get (tm s) (k + 1) = Some (js_num (js_get (tm s) k) + dt))
           \<and> num s = i \<and> error s = 1
           \<and> (case i of
                 0 \<Rightarrow> js_get (vel s) 0 = js_get vel0 0
               | Suc j \<Rightarrow>
                   (\<exists>q w. js_get (pos s) j = Some q \<and> js_get (vel s) j = Some w
                      \<and> js_get (vel s) (Suc j) = Some (snd (rk2_advance radius GM dt q w))))"
proof -
  have n2: "2 \<le> n" using assms(2) by simp
  from run_collision[OF assms]
  have st: "\<forall>k<i. stepped radius GM dt s k"
    and fr: "frozen_from radius dt n s i" and ne: "num s = i" "error s = 1"
    by simp_all
  from fr obtain p where p: "js_get (pos s) i = Some p" "hypot3 p < radius"
    "\<forall>k. i \<le> k \<and> k < n \<longrightarrow> js_get (pos s) k = Some p"
    "\<forall>k. i < k \<and> k < n \<longrightarrow> js_get (vel s) k = Some \<lparr>x = 0, y = 0, z = 0\<rparr>"
    "\<forall>k. i \<le> k \<and> k + 1 < n
         \<longrightarrow> js_get (tm s) (k + 1) = Some (js_num (js_get (tm s) k) + dt)"
    unfolding frozen_from_def by (elim exE conjE)
  have v: "case i of
             0 \<Rightarrow> js_get (vel s) 0 = js_get vel0 0
           | Suc j \<Rightarrow>
               (\<exists>q w. js_get (pos s) j = Some q \<and> js_get (vel s) j = Some w
                  \<and> js_get (vel s) (Suc j) = Some (snd (rk2_advance radius GM dt q w)))"
  proof (cases i)
    case 0
    then show ?thesis
      using planetRK2_spec[OF assms(1) n2] by simp
  next
    case (Suc j)
    then have "stepped radius GM dt s j" using st by simp
    then show ?thesis
      unfolding Suc stepped_def by auto
  qed
  show ?thesis
    using p ne v by (intro exI[of _ p] conjI)
qed

text \<open>
  The call that \<^verbatim>\<open>calculateOrbit\<close> makes for a final time of 0.3, a body at (1, 0, 0)
  with velocity (1, 0, 0) and an attractor of radius 2: three points, and the collision is
  at index 0.
\<close>

theorem frozen_tail_after_collision_witness:
  "0 + 2 \<le> (3::nat)
   \<and> first_collision 2 [Some \<lparr>x = 1, y = 0, z = 0\<rparr>, Some \<lparr>x = 1, y = 0, z = 0\<rparr>,
                         Some \<lparr>x = 1, y = 0, z = 0\<rparr>] 0
   \<and> planetRK2 3 0 2 (4 * Num pi * Num pi) 0.1 [Some 0, None, None]
        [Some \<lparr>x = 1, y = 0, z = 0\<rparr>, None, None]
        [Some \<lparr>x = 1, y = 0, z = 0\<rparr>, None, None] 0
     = Inr \<lparr>tm = [Some 0, Some 0.1, Some 0.2],
            pos = [Some \<lparr>x = 1, y = 0, z = 0\<rparr>, Some \<lparr>x = 1, y = 0, z = 0\<rparr>,
                   Some \<lparr>x = 1, y = 0, z = 0\<rparr>],
            vel = [Some \<lparr>x = 1, y = 0, z = 0\<rparr>, Some \<lparr>x = 0, y = 0, z = 0\<rparr>,
                   Some \<lparr>x = 0, y = 0, z = 0\<rparr>],
            num = 0, error = 1\<rparr>"
proof -
  have fc: "first_collision 2 (pos \<lparr>tm = [Some 0, Some 0.1, Some 0.2],
            pos = [Some \<lparr>x = 1, y = 0, z = 0\<rparr>, Some \<lparr>x = 1, y = 0, z = 0\<rparr>,
                   Some \<lparr>x = 1, y = 0, z = 0\<rparr>],
            vel = [Some \<lparr>x = 1, y = 0, z = 0\<rparr>, Some \<lparr>x = 0, y = 0, z = 0\<rparr>,
                   Some \<lparr>x = 0, y = 0, z = 0\<rparr>],
            num = 0, error = 1\<rparr>) 0"
    by (simp add: first_collision_def collides_def js_get_def)
  have idx: "0 + 2 \<le> (3::nat)" by simp
  show ?thesis
    using frozen_tail_after_collision[OF run_with_collision_at_start idx fc] fc
      run_with_collision_at_start
    by simp
qed

text \<open>
  The claim as stated also sets the velocity at the collision index to (0, 0, 0). In
  the run above the collision is at index 0, and \<^verbatim>\<open>vel[0]\<close> is still the initial velocity
  (1, 0, 0) at the end.
\<close>

theorem velocity_at_collision_index_counterexample:
  "planetRK2 3 0 2 (4 * Num pi * Num pi) 0.1 [Some 0, None, None]
        [Some \<lparr>x = 1, y = 0, z = 0\<rparr>, None, None]
        [Some \<lparr>x = 1, y = 0, z = 0\<rparr>, None, None] 0
     = Inr \<lparr>tm = [Some 0, Some 0.1, Some 0.2],
            pos = [Some \<lparr>x = 1, y = 0, z = 0\<rparr>, Some \<lparr>x = 1, y = 0, z = 0\<rparr>,
                   Some \<lparr>x = 1, y = 0, z = 0\<rparr>],
            vel = [Some \<lparr>x = 1, y = 0, z = 0\<rparr>, Some \<lparr>x = 0, y = 0, z = 0\<rparr>,
                   Some \<lparr>x = 0, y = 0, z = 0\<rparr>],
            num = 0, error = 1\<rparr>
   \<and> hypot3 \<lparr>x = 1, y = 0, z = 0\<rparr> < 2
   \<and> \<lparr>x = 1, y = 0, z = 0\<rparr> \<noteq> \<lparr>x = 0, y = 0, z = 0\<rparr>"
  using run_with_collision_at_start by simp

subsection \<open>C3: planar orbits\<close>




subsection \<open>C4: the velocity update\<close>

text \<open>
  Claim C4, as amended. In every step \<open>i\<close> before which, and at which, no collision
  test succeeds, \<^verbatim>\<open>vel[i + 1] = vel[i] + dt * accel(h)\<close>, where
  \<open>h = pos[i] + (dt / 2) vel[i]\<close> is the half-step position and \<open>accel\<close> is the force law
  of the specification at \<open>h\<close>: \<open>ax = - x (m + o + p)\<close>, \<open>ay = - y (m + o + p)\<close>,
  \<open>az = - z (m + o + p + q)\<close>.
\<close>

theorem velocity_update_at_half_step:
  assumes "planetRK2 n num0 radius GM dt t0 pos0 vel0 error0 = Inr s"
    and "i + 2 \<le> n" and "\<not> list_ex (collides radius) (take (i + 1) (pos s))"
  shows "\<exists>p v. js_get (pos s) i = Some p \<and> js_get (vel s) i = Some v
           \<and> js_get (vel s) (i + 1)
             = Some (axpy dt (accel_spec radius GM (axpy (dt / 2) v p)) v)"
proof -
  have "stepped radius GM dt s i"
    using assms by (rule run_stepped_before)
  then show ?thesis
    unfolding stepped_def advance_velocity by (elim exE conjE) (intro exI conjI)
qed

text \<open>
  One step of a body at rest at (1, 0, 0), with GM = 1 and attractor radius 0: the new
  velocity is (-0.1, 0, 0), towards the attractor.
\<close>

theorem velocity_update_at_half_step_witness:
  "0 + 2 \<le> (2::nat)
   \<and> \<not> list_ex (collides 0) (take (0 + 1) [Some \<lparr>x = 1, y = 0, z = 0\<rparr>,
                                              Some \<lparr>x = 0.995, y = 0, z = 0\<rparr>])
   \<and> planetRK2 2 0 0 1 0.1 [Some 0, None]
        [Some \<lparr>x = 1, y = 0, z = 0\<rparr>, None] [Some \<lparr>x = 0, y = 0, z = 0\<rparr>, None] 0
     = Inr \<lparr>tm = [Some 0, Some 0.1],
            pos = [Some \<lparr>x = 1, y = 0, z = 0\<rparr>, Some \<lparr>x = 0.995, y = 0, z = 0\<rparr>],
            vel = [Some \<lparr>x = 0, y = 0, z = 0\<rparr>, Some \<lparr>x = - 0.1, y = 0, z = 0\<rparr>],
            num = 1, error = 0\<rparr>
   \<and> axpy 0.1 (accel_spec 0 1 (axpy (0.1 / 2) \<lparr>x = 0, y = 0, z = 0\<rparr> \<lparr>x = 1, y = 0, z = 0\<rparr>))
          \<lparr>x = 0, y = 0, z = 0\<rparr>
     = \<lparr>x = - 0.1, y = 0, z = 0\<rparr>"
proof -
  have idx: "0 + 2 \<le> (2::nat)" by simp
  have free: "\<not> list_ex (collides 0)
                  (take (0 + 1) (pos \<lparr>tm = [Some 0, Some 0.1],
            pos = [Some \<lparr>x = 1, y = 0, z = 0\<rparr>, Some \<lparr>x = 0.995, y = 0, z = 0\<rparr>],
            vel = [Some \<lparr>x = 0, y = 0, z = 0\<rparr>, Some \<lparr>x = - 0.1, y = 0, z = 0\<rparr>],
            num = 1, error = 0\<rparr>))"
    by (simp add: collides_def)
  show ?thesis
    using velocity_update_at_half_step[OF run_of_one_step idx free] free run_of_one_step
    by (simp add: js_get_def)
qed

text \<open>
  The claim as stated subtracts \<open>dt * accel(h)\<close>. For the same step that would give the
  velocity (+0.1, 0, 0), away from the attractor, where the run has (-0.1, 0, 0).
\<close>

theorem velocity_update_sign_counterexample:
  "planetRK2 2 0 0 1 0.1 [Some 0, None]
        [Some \<lparr>x = 1, y = 0, z = 0\<rparr>, None] [Some \<lparr>x = 0, y = 0, z = 0\<rparr>, None] 0
     = Inr \<lparr>tm = [Some 0, Some 0.1],
            pos = [Some \<lparr>x = 1, y = 0, z = 0\<rparr>, Some \<lparr>x = 0.995, y = 0, z = 0\<rparr>],
            vel = [Some \<lparr>x = 0, y = 0, z = 0\<rparr>, Some \<lparr>x = - 0.1, y = 0, z = 0\<rparr>],
            num = 1, error = 0\<rparr>
   \<and> axpy (- 0.1) (accel_spec 0 1 (axpy (0.1 / 2) \<lparr>x = 0, y = 0, z = 0\<rparr> \<lparr>x = 1, y = 0, z = 0\<rparr>))
          \<lparr>x = 0, y = 0, z = 0\<rparr>
     = \<lparr>x = 0.1, y = 0, z = 0\<rparr>"
  using run_of_one_step by (simp add: axpy_def accel_spec_def Let_def)

subsection \<open>C5: the length of a full run\<close>

text \<open>
  Claim C5, as amended. When \<^verbatim>\<open>calculateOrbit\<close> reaches the step loop with a point count
  \<open>N = \<bar>round (finalTime / timeStep)\<bar>\<close> of at least 3 and no collision test of the loop
  succeeds, the returned trajectory has exactly \<open>N\<close> entries.
\<close>

theorem full_run_length:
  assumes "reaches_loop finalTime initialPosition initialVelocity"
    and "3 \<le> \<bar>round (finalTime / timeStep)\<bar>"
    and "orbit_run finalTime initialPosition initialVelocity attractorRadius = Inr s"
    and "\<not> list_ex (collides attractorRadius)
             (take (nat \<bar>round (finalTime / timeStep)\<bar> - 1) (pos s))"
  shows "int (length (fst (calculateOrbit finalTime initialPosition initialVelocity attractorRadius)))
         = \<bar>round (finalTime / timeStep)\<bar>"
  using calculateOrbit_free(1,2)[OF assms] by simp

text \<open>
  A final time of 0.3 gives three points.
\<close>

theorem full_run_length_witness:
  "\<exists>s. reaches_loop 0.3 \<lparr>x = 1, y = 0, z = 0\<rparr> \<lparr>x = 0, y = 1, z = 0\<rparr>
      \<and> 3 \<le> \<bar>round (0.3 / timeStep)\<bar>
      \<and> orbit_run 0.3 \<lparr>x = 1, y = 0, z = 0\<rparr> \<lparr>x = 0, y = 1, z = 0\<rparr> 0 = Inr s
      \<and> \<not> list_ex (collides 0) (take (nat \<bar>round (0.3 / timeStep)\<bar> - 1) (pos s))
      \<and> length (fst (calculateOrbit 0.3 \<lparr>x = 1, y = 0, z = 0\<rparr> \<lparr>x = 0, y = 1, z = 0\<rparr> 0)) = 3"
proof -
  let ?P = "\<lparr>x = 1, y = 0, z = 0\<rparr>" and ?V = "\<lparr>x = 0, y = 1, z = 0\<rparr>"
  have reach: "reaches_loop 0.3 ?P ?V"
    unfolding reaches_loop_def points_of_time by simp
  obtain s where s: "orbit_run 0.3 ?P ?V 0 = Inr s"
    using orbit_run_total by blast
  have free: "\<not> list_ex (collides 0) (take (nat \<bar>round (0.3 / timeStep)\<bar> - 1) (pos s))"
    unfolding list_ex_take_get by (simp add: no_collision_nonpos)
  have three: "3 \<le> \<bar>round (0.3 / timeStep)\<bar>"
    unfolding points_of_time by simp
  have "length (fst (calculateOrbit 0.3 ?P ?V 0)) = 3"
    using full_run_length[OF reach three s free] unfolding points_of_time by simp
  then show ?thesis
    using reach three s free by (intro exI[of _ s] conjI)
qed

text \<open>
  The claim as stated has one entry more, and takes the absolute value before rounding.
  A final time of 1 around a point mass gives a run without collision (error flag 0) and
  a trajectory of 10 entries, where \<open>round (\<bar>1\<bar> / 0.1) + 1\<close> is 11. A final time of -0.45
  gives 4 entries, since \<^verbatim>\<open>Math.round\<close> takes -4.5 to -4, where \<open>round (\<bar>-0.45\<bar> / 0.1)\<close>
  is 5.
\<close>

theorem full_run_length_counterexample:
  "length (fst (calculateOrbit 1 \<lparr>x = 1, y = 0, z = 0\<rparr> \<lparr>x = 0, y = 1, z = 0\<rparr> 0)) = 10
   \<and> map_sum id error (orbit_run 1 \<lparr>x = 1, y = 0, z = 0\<rparr> \<lparr>x = 0, y = 1, z = 0\<rparr> 0) = Inr 0
   \<and> round (\<bar>1\<bar> / (0.1 :: real)) + 1 = 11
   \<and> length (fst (calculateOrbit (- 0.45) \<lparr>x = 1, y = 0, z = 0\<rparr> \<lparr>x = 0, y = 1, z = 0\<rparr> 0)) = 4
   \<and> map_sum id error (orbit_run (- 0.45) \<lparr>x = 1, y = 0, z = 0\<rparr> \<lparr>x = 0, y = 1, z = 0\<rparr> 0) = Inr 0
   \<and> round (\<bar>- 0.45\<bar> / (0.1 :: real)) = 5"
proof -
  let ?P = "\<lparr>x = 1, y = 0, z = 0\<rparr>" and ?V = "\<lparr>x = 0, y = 1, z = 0\<rparr>"
  have reach: "reaches_loop 1 ?P ?V"
    unfolding reaches_loop_def points_of_time by simp
  obtain s where s: "orbit_run 1 ?P ?V 0 = Inr s"
    using orbit_run_total by blast
  have free: "\<not> list_ex (collides 0) (take (nat \<bar>round (1 / timeStep)\<bar> - 1) (pos s))"
    unfolding list_ex_take_get by (simp add: no_collision_nonpos)
  have three: "3 \<le> \<bar>round (1 / timeStep)\<bar>"
    unfolding points_of_time by simp
  note ok = calculateOrbit_free[OF reach three s free]
  have a: "length (fst (calculateOrbit 1 ?P ?V 0)) = 10"
    using ok(1,2) unfolding points_of_time by simp
  have b: "map_sum id error (orbit_run 1 ?P ?V 0) = Inr 0"
    unfolding s using ok(3) by simp
  have c: "round (\<bar>1\<bar> / (0.1 :: real)) + 1 = 11"
    by simp
  have reach': "reaches_loop (- 0.45) ?P ?V"
    unfolding reaches_loop_def points_of_negative_time by simp
  obtain s' where s': "orbit_run (- 0.45) ?P ?V 0 = Inr s'"
    using orbit_run_total by blast
  have free': "\<not> list_ex (collides 0) (take (nat \<bar>round (- 0.45 / timeStep)\<bar> - 1) (pos s'))"
    unfolding list_ex_take_get by (simp add: no_collision_nonpos)
  have three': "3 \<le> \<bar>round (- 0.45 / timeStep)\<bar>"
    unfolding points_of_negative_time by simp
  note ok' = calculateOrbit_free[OF reach' three' s' free']
  have a': "length (fst (calculateOrbit (- 0.45) ?P ?V 0)) = 4"
    using ok'(1,2) unfolding points_of_negative_time by simp
  have b': "map_sum id error (orbit_run (- 0.45) ?P ?V 0) = Inr 0"
    unfolding s' using ok'(3) by simp
  show ?thesis
    using a b c a' b' points_of_negative_time(2) by (intro conjI)
qed

subsection \<open>C6: degenerate inputs\<close>

text \<open>
  Claim C6. When the point count is not positive, or the initial position or the initial
  velocity has magnitude at most 0, \<^verbatim>\<open>calculateOrbit\<close> returns the output of the sampler for
  one sample of radius 0.1, which is the single point (0.1, 0, 0), with energy 0.
\<close>

theorem degenerate_inputs_fall_back:
  assumes "\<bar>round (finalTime / timeStep)\<bar> \<le> 0 \<or> hypot3 initialPosition \<le> 0
           \<or> hypot3 initialVelocity \<le> 0"
  shows "calculateOrbit finalTime initialPosition initialVelocity attractorRadius
         = (map Some (samplePlanarOrbit 1 0.1), 0)
         \<and> samplePlanarOrbit 1 0.1 = [\<lparr>x = 0.1, y = 0, z = 0\<rparr>]"
proof -
  have "\<not> reaches_loop finalTime initialPosition initialVelocity"
    using assms by (auto simp: reaches_loop_def)
  then have "calculateOrbit finalTime initialPosition initialVelocity attractorRadius = fallback"
    by (rule calculateOrbit_guard)
  then show ?thesis by (simp add: fallback_def sampler_one)
qed

text \<open>
  A final time of 0, a body at the origin, and a body at rest.
\<close>

theorem degenerate_inputs_fall_back_witness:
  "\<bar>round (0 / timeStep)\<bar> \<le> 0
   \<and> calculateOrbit 0 \<lparr>x = 1, y = 0, z = 0\<rparr> \<lparr>x = 0, y = 1, z = 0\<rparr> 0.1
     = ([Some \<lparr>x = 0.1, y = 0, z = 0\<rparr>], 0)
   \<and> hypot3 \<lparr>x = 0, y = 0, z = 0\<rparr> \<le> 0
   \<and> calculateOrbit 1 \<lparr>x = 0, y = 0, z = 0\<rparr> \<lparr>x = 0, y = 1, z = 0\<rparr> 0.1
     = ([Some \<lparr>x = 0.1, y = 0, z = 0\<rparr>], 0)
   \<and> calculateOrbit 1 \<lparr>x = 1, y = 0, z = 0\<rparr> \<lparr>x = 0, y = 0, z = 0\<rparr> 0.1
     = ([Some \<lparr>x = 0.1, y = 0, z = 0\<rparr>], 0)"
proof -
  have a: "\<bar>round (0 / timeStep)\<bar> \<le> 0" unfolding points_of_time by simp
  have b: "hypot3 \<lparr>x = 0, y = 0, z = 0\<rparr> \<le> 0" by simp
  show ?thesis
    using a b
      degenerate_inputs_fall_back[of 0 "\<lparr>x = 1, y = 0, z = 0\<rparr>" "\<lparr>x = 0, y = 1, z = 0\<rparr>" "0.1"]
      degenerate_inputs_fall_back[of 1 "\<lparr>x = 0, y = 0, z = 0\<rparr>" "\<lparr>x = 0, y = 1, z = 0\<rparr>" "0.1"]
      degenerate_inputs_fall_back[of 1 "\<lparr>x = 1, y = 0, z = 0\<rparr>" "\<lparr>x = 0, y = 0, z = 0\<rparr>" "0.1"]
    by simp
qed

subsection \<open>C7: the first point\<close>

text \<open>
  Claim C7, as amended. When the point count is at least 3 and at most \<open>2\<^sup>3\<^sup>2 - 1\<close>,
  the attractor radius is not negative, the initial position lies outside the attractor,
  the initial velocity is not zero, and the position after the first step is not inside
  the attractor, the returned trajectory has at least 2 entries and its first entry is the
  initial position.
\<close>

theorem trajectory_starts_at_initial_position:
  assumes "3 \<le> \<bar>round (finalTime / timeStep)\<bar>" and "\<bar>round (finalTime / timeStep)\<bar> \<le> 4294967295"
    and "0 \<le> attractorRadius" and "attractorRadius < hypot3 initialPosition"
    and "0 < hypot3 initialVelocity"
    and "\<not> hypot3 (fst (rk2_advance attractorRadius (4 * Num pi * Num pi) (Num timeStep)
                            initialPosition initialVelocity)) < attractorRadius"
  shows "2 \<le> length (fst (calculateOrbit finalTime initialPosition initialVelocity attractorRadius))
         \<and> fst (calculateOrbit finalTime initialPosition initialVelocity attractorRadius) ! 0
           = Some initialPosition"
proof -
  let ?n = "nat \<bar>round (finalTime / timeStep)\<bar>"
  let ?GM = "4 * Num pi * Num pi"
  have reach: "reaches_loop finalTime initialPosition initialVelocity"
    using assms(1,2) less_le_jsnum[OF assms(3,4)] pos_not_le_jsnum[OF assms(5)]
    by (simp add: reaches_loop_def)
  obtain s where s: "orbit_run finalTime initialPosition initialVelocity attractorRadius = Inr s"
    using orbit_run_total by blast
  note run = s[unfolded orbit_run_def Let_def]
  have n3: "3 \<le> ?n" using assms(1) by linarith
  then have n2: "2 \<le> ?n" by simp
  from planetRK2_spec[OF run n2]
  have p0: "js_get (pos s) 0 = Some initialPosition"
    and v0: "js_get (vel s) 0 = Some initialVelocity"
    by (simp_all add: js_get_set)
  have c0: "\<not> collides attractorRadius (js_get (pos s) 0)"
    using less_asym_jsnum[OF assms(4)] by (simp add: p0 collides_def)
  have "\<not> list_ex (collides attractorRadius) (take (0 + 1) (pos s))"
    unfolding list_ex_take_get using c0 by simp
  moreover have "0 + 2 \<le> ?n" using n2 by simp
  ultimately have "stepped attractorRadius ?GM (Num timeStep) s 0"
    using run_stepped_before[OF run] by blast
  then have p1: "js_get (pos s) 1
                 = Some (fst (rk2_advance attractorRadius ?GM (Num timeStep) initialPosition initialVelocity))"
    using p0 v0 by (auto simp: stepped_def)
  have c1: "\<not> collides attractorRadius (js_get (pos s) 1)"
    using assms(6) unfolding p1 collides_def by simp
  have big: "2 \<le> num s"
  proof (cases "error s = 0")
    case True
    then show ?thesis using run_error0[OF run n2] n3 by simp
  next
    case False
    from run_error1[OF run n2 False]
    have "collides attractorRadius (js_get (pos s) (num s))"
      using frozen_collision by blast
    then have "num s \<noteq> 0" "num s \<noteq> 1"
      using c0 c1 by metis+
    then show ?thesis by linarith
  qed
  note ok = calculateOrbit_success[OF reach s big]
  show ?thesis
    unfolding ok(1) using ok(2) ok(3)[of 0] ok(4) big by simp
qed

text \<open>
  Three points from (1, 0, 0) with velocity (0, 1, 0) and the default attractor radius
  0.1: after the first step the body is at distance at least 0.1 from the origin, since
  its y-component is 0.1.
\<close>

theorem trajectory_starts_at_initial_position_witness:
  "3 \<le> \<bar>round (0.3 / timeStep)\<bar> \<and> \<bar>round (0.3 / timeStep)\<bar> \<le> 4294967295
   \<and> (0::jsnum) \<le> 0.1 \<and> 0.1 < hypot3 \<lparr>x = 1, y = 0, z = 0\<rparr>
   \<and> 0 < hypot3 \<lparr>x = 0, y = 1, z = 0\<rparr>
   \<and> \<not> hypot3 (fst (rk2_advance 0.1 (4 * Num pi * Num pi) (Num timeStep)
                        \<lparr>x = 1, y = 0, z = 0\<rparr> \<lparr>x = 0, y = 1, z = 0\<rparr>)) < 0.1
   \<and> 2 \<le> length (fst (calculateOrbit 0.3 \<lparr>x = 1, y = 0, z = 0\<rparr> \<lparr>x = 0, y = 1, z = 0\<rparr> 0.1))
   \<and> fst (calculateOrbit 0.3 \<lparr>x = 1, y = 0, z = 0\<rparr> \<lparr>x = 0, y = 1, z = 0\<rparr> 0.1) ! 0
     = Some \<lparr>x = 1, y = 0, z = 0\<rparr>"
proof -
  have a: "3 \<le> \<bar>round (0.3 / timeStep)\<bar>" "\<bar>round (0.3 / timeStep)\<bar> \<le> 4294967295"
    unfolding points_of_time by simp_all
  have b: "(0::jsnum) \<le> 0.1" "0.1 < hypot3 \<lparr>x = 1, y = 0, z = 0\<rparr>"
    "0 < hypot3 \<lparr>x = 0, y = 1, z = 0\<rparr>"
    by simp_all
  show ?thesis
    using trajectory_starts_at_initial_position[OF a b first_step_stays_outside]
      a b first_step_stays_outside
    by (intro conjI) simp_all
qed

text \<open>
  The claim as stated asks only for a position outside the attractor and a velocity
  that is not zero. With a final time of 0.2 the point count is 2, the step loop reports
  the index 1, and \<^verbatim>\<open>calculateOrbit\<close> returns the fallback: one point, (0.1, 0, 0). With a
  final time of 0.3, a body at (10, 0, 0) with velocity (-60, 0, 0) is inside the
  attractor of radius 5 after the first step; the collision is at index 1, and the
  result is the fallback again.
\<close>

theorem first_point_counterexample:
  "calculateOrbit 0.2 \<lparr>x = 1, y = 0, z = 0\<rparr> \<lparr>x = 0, y = 1, z = 0\<rparr> 0.1
     = ([Some \<lparr>x = 0.1, y = 0, z = 0\<rparr>], 0)
   \<and> 0.1 < hypot3 \<lparr>x = 1, y = 0, z = 0\<rparr> \<and> 0 < hypot3 \<lparr>x = 0, y = 1, z = 0\<rparr>
   \<and> calculateOrbit 0.3 \<lparr>x = 10, y = 0, z = 0\<rparr> \<lparr>x = - 60, y = 0, z = 0\<rparr> 5
     = ([Some \<lparr>x = 0.1, y = 0, z = 0\<rparr>], 0)
   \<and> 5 < hypot3 \<lparr>x = 10, y = 0, z = 0\<rparr> \<and> 0 < hypot3 \<lparr>x = - 60, y = 0, z = 0\<rparr>"
proof -
  let ?P = "\<lparr>x = 10, y = 0, z = 0\<rparr>" and ?V = "\<lparr>x = - 60, y = 0, z = 0\<rparr>"
  let ?GM = "4 * Num pi * Num pi"
  have reach: "reaches_loop 0.3 ?P ?V"
    unfolding reaches_loop_def points_of_time by simp
  obtain s where s: "orbit_run 0.3 ?P ?V 5 = Inr s"
    using orbit_run_total by blast
  have run: "planetRK2 3 0 5 ?GM (Num timeStep) (js_set (replicate 3 None) 0 0)
               (js_set (replicate 3 None) 0 ?P) (js_set (replicate 3 None) 0 ?V) 0 = Inr s"
    using s unfolding orbit_run_def Let_def points_of_time by simp
  obtain x1 where adv:
    "fst (rk2_advance 5 ?GM (Num timeStep) ?P ?V) = \<lparr>x = Num x1, y = 0, z = 0\<rparr>" "\<bar>x1\<bar> < 5"
    using early_infall by blast
  have p0: "js_get (pos s) 0 = Some ?P" and v0: "js_get (vel s) 0 = Some ?V"
    using planetRK2_spec[OF run] by (simp_all add: js_get_set)
  have c0: "\<not> collides 5 (js_get (pos s) 0)"
    unfolding p0 collides_def by simp
  have "\<not> list_ex (collides 5) (take (0 + 1) (pos s))"
    unfolding list_ex_take_get using c0 by simp
  then have "stepped 5 ?GM (Num timeStep) s 0"
    using run_stepped_before[OF run, of 0] by simp
  then have p1: "js_get (pos s) (0 + 1) = Some \<lparr>x = Num x1, y = 0, z = 0\<rparr>"
    unfolding stepped_def p0 v0 using adv(1) by auto
  have c1: "collides 5 (js_get (pos s) (0 + 1))"
    unfolding p1 collides_def using adv(2) by simp
  have "first_collision 5 (pos s) (0 + 1)"
    unfolding first_collision_def list_ex_take_get using c0 c1 by simp
  then have "num s = 0 + 1"
    using run_collision[OF run, of "0 + 1"] by simp
  then have "calculateOrbit 0.3 ?P ?V 5 = fallback"
    using calculateOrbit_run[OF reach s] by simp
  then show ?thesis
    using calculateOrbit_two_points[OF points_of_time(1)] by (simp add: fallback_value)
qed

subsection \<open>C8: the sampler\<close>

text \<open>
  Claim C8. For a whole number of samples, \<^verbatim>\<open>samplePlanarOrbit\<close> returns that many
  points; point \<open>k\<close> is \<open>(radius cos \<theta>, radius sin \<theta>, 0)\<close> with
  \<open>\<theta> = 2 \<pi> k / samples\<close>, so it lies in the plane \<open>z = 0\<close> at distance \<open>\<bar>radius\<bar>\<close>
  from the origin, and the angles lie in \<open>[0, 2 \<pi>)\<close>.
\<close>

theorem sampler_points_on_circle:
  "length (samplePlanarOrbit (real n) radius) = n
   \<and> (\<forall>k<n. samplePlanarOrbit (real n) radius ! k
               = \<lparr>x = Num (radius * cos (2 * pi * real k / real n)),
                  y = Num (radius * sin (2 * pi * real k / real n)), z = 0\<rparr>
             \<and> z (samplePlanarOrbit (real n) radius ! k) = 0
             \<and> hypot3 (samplePlanarOrbit (real n) radius ! k) = Num \<bar>radius\<bar>
             \<and> 0 \<le> 2 * pi * real k / real n \<and> 2 * pi * real k / real n < 2 * pi)"
proof -
  let ?pt = "\<lambda>k. \<lparr>x = Num (radius * cos (2 * pi * real k / real n)),
                   y = Num (radius * sin (2 * pi * real k / real n)), z = 0\<rparr>"
  have ang: "real k / real n * 2 * pi = 2 * pi * real k / real n" for k
    by simp
  have "samplePlanarOrbit (real n) radius
        = map (\<lambda>k. \<lparr>x = Num (radius * cos (real k / real n * 2 * pi)),
                        y = Num (radius * sin (real k / real n * 2 * pi)), z = 0\<rparr>) [0..<n]"
    using sampler_loop[of 0 n radius "[]"] by (simp add: samplePlanarOrbit_def)
  then have all: "samplePlanarOrbit (real n) radius = map ?pt [0..<n]"
    by (simp only: ang)
  have len: "length (samplePlanarOrbit (real n) radius) = n"
    unfolding all by simp
  have pt: "samplePlanarOrbit (real n) radius ! k = ?pt k" if "k < n" for k
    unfolding all using that by simp
  have hyp: "hypot3 (?pt k) = Num \<bar>radius\<bar>" for k
    unfolding zero_jsnum_def hypot3_Num using circle_norm[of radius "2 * pi * real k / real n"]
    by simp
  have rng: "0 \<le> 2 * pi * real k / real n \<and> 2 * pi * real k / real n < 2 * pi" if "k < n" for k
  proof -
    have "real k / real n < 1" using that by simp
    then have "2 * pi * (real k / real n) < 2 * pi * 1"
      by (intro mult_strict_left_mono) simp_all
    then show ?thesis by simp
  qed
  show ?thesis
  proof (intro conjI allI impI)
    show "length (samplePlanarOrbit (real n) radius) = n" by (rule len)
  next
    fix k assume k: "k < n"
    show "samplePlanarOrbit (real n) radius ! k = ?pt k" by (rule pt[OF k])
    show "z (samplePlanarOrbit (real n) radius ! k) = 0" unfolding pt[OF k] by simp
    show "hypot3 (samplePlanarOrbit (real n) radius ! k) = Num \<bar>radius\<bar>"
      unfolding pt[OF k] by (rule hyp)
    show "0 \<le> 2 * pi * real k / real n" using rng[OF k] by simp
    show "2 * pi * real k / real n < 2 * pi" using rng[OF k] by simp
  qed
qed

text \<open>
  Four samples on the circle of radius 2.
\<close>

theorem sampler_points_on_circle_witness:
  "length (samplePlanarOrbit 4 2) = 4
   \<and> samplePlanarOrbit 4 2 ! 0 = \<lparr>x = 2, y = 0, z = 0\<rparr>
   \<and> samplePlanarOrbit 4 2 ! 1 = \<lparr>x = 0, y = 2, z = 0\<rparr>
   \<and> samplePlanarOrbit 4 2 ! 2 = \<lparr>x = - 2, y = 0, z = 0\<rparr>"
proof -
  from sampler_points_on_circle[of 4 2]
  have len: "length (samplePlanarOrbit 4 2) = 4"
    and pts: "\<And>k. k < 4 \<Longrightarrow> samplePlanarOrbit 4 2 ! k
                = \<lparr>x = Num (2 * cos (2 * pi * real k / 4)), y = Num (2 * sin (2 * pi * real k / 4)),
                   z = 0\<rparr>"
    by simp_all
  show ?thesis
    using len pts[of 0] pts[of 1] pts[of 2] by simp
qed

subsection \<open>C9: a collision at index 0 or 1\<close>

text \<open>
  Claim C9. When the first collision of the run that \<^verbatim>\<open>calculateOrbit\<close> starts is at
  step index 0 or 1, the step loop reports a count below 2 and \<^verbatim>\<open>calculateOrbit\<close> returns
  the fallback: the single point (0.1, 0, 0) with energy 0.
\<close>

theorem early_collision_falls_back:
  assumes "orbit_run finalTime initialPosition initialVelocity attractorRadius = Inr s"
    and "first_collision attractorRadius (pos s) i"
    and "i \<le> 1" and "i + 2 \<le> nat \<bar>round (finalTime / timeStep)\<bar>"
  shows "num s < 2
         \<and> calculateOrbit finalTime initialPosition initialVelocity attractorRadius
           = ([Some \<lparr>x = 0.1, y = 0, z = 0\<rparr>], 0)"
proof -
  have "num s = i"
    using run_collision[OF assms(1)[unfolded orbit_run_def Let_def] assms(4,2)] by simp
  then have small: "num s < 2" using assms(3) by simp
  have "calculateOrbit finalTime initialPosition initialVelocity attractorRadius = fallback"
  proof (cases "reaches_loop finalTime initialPosition initialVelocity")
    case True
    then show ?thesis using calculateOrbit_run[OF True assms(1)] small by simp
  next
    case False
    then show ?thesis by (rule calculateOrbit_guard)
  qed
  then show ?thesis using small by (simp add: fallback_value)
qed

text \<open>
  A body that starts at (1, 0, 0), inside an attractor of radius 2.
\<close>

theorem early_collision_falls_back_witness:
  "\<exists>s. orbit_run 0.3 \<lparr>x = 1, y = 0, z = 0\<rparr> \<lparr>x = 0, y = 1, z = 0\<rparr> 2 = Inr s
      \<and> first_collision 2 (pos s) 0 \<and> (0::nat) \<le> 1 \<and> 0 + 2 \<le> nat \<bar>round (0.3 / timeStep)\<bar>
      \<and> num s < 2
      \<and> calculateOrbit 0.3 \<lparr>x = 1, y = 0, z = 0\<rparr> \<lparr>x = 0, y = 1, z = 0\<rparr> 2
        = ([Some \<lparr>x = 0.1, y = 0, z = 0\<rparr>], 0)"
proof -
  let ?P = "\<lparr>x = 1, y = 0, z = 0\<rparr>" and ?V = "\<lparr>x = 0, y = 1, z = 0\<rparr>"
  obtain s where s: "orbit_run 0.3 ?P ?V 2 = Inr s"
    using orbit_run_total by blast
  have n: "0 + 2 \<le> nat \<bar>round (0.3 / timeStep)\<bar>"
    unfolding points_of_time by simp
  then have "2 \<le> nat \<bar>round (0.3 / timeStep)\<bar>" by simp
  from planetRK2_spec[OF s[unfolded orbit_run_def Let_def] this]
  have "js_get (pos s) 0 = Some ?P"
    by (simp add: js_get_set)
  then have fc: "first_collision 2 (pos s) 0"
    by (simp add: first_collision_def collides_def)
  have i: "(0::nat) \<le> 1" by simp
  show ?thesis
    using early_collision_falls_back[OF s fc i n] s fc n
    by (intro exI[of _ s] conjI) simp_all
qed

subsection \<open>C10: a collision at index 2 or later\<close>

text \<open>
  Claim C10. When \<^verbatim>\<open>calculateOrbit\<close> reaches the step loop and the first collision of the
  run is at a step index \<open>i\<close> of at least 2, it returns the entries 0 to \<open>i\<close> of the
  position array, \<open>i + 1\<close> points, with the energy of the initial state. The last of them
  is the colliding position, none before it collides, and nothing of the frozen tail is
  returned.
\<close>

theorem late_collision_truncates:
  assumes "reaches_loop finalTime initialPosition initialVelocity"
    and "orbit_run finalTime initialPosition initialVelocity attractorRadius = Inr s"
    and "first_collision attractorRadius (pos s) i"
    and "2 \<le> i" and "i + 2 \<le> nat \<bar>round (finalTime / timeStep)\<bar>"
  shows "calculateOrbit finalTime initialPosition initialVelocity attractorRadius
         = (take (i + 1) (pos s), energy_spec initialPosition initialVelocity attractorRadius)
         \<and> length (take (i + 1) (pos s)) = i + 1
         \<and> last (take (i + 1) (pos s)) = js_get (pos s) i
         \<and> collides attractorRadius (js_get (pos s) i)
         \<and> \<not> list_ex (collides attractorRadius) (butlast (take (i + 1) (pos s)))"
proof -
  have num: "num s = i"
    using run_collision[OF assms(2)[unfolded orbit_run_def Let_def] assms(5,3)] by simp
  then have n2: "2 \<le> num s" using assms(4) by simp
  note ok = calculateOrbit_success[OF assms(1,2) n2, unfolded num]
  have "take (i + 1) (pos s) \<noteq> []" using ok(2) by auto
  then have "last (take (i + 1) (pos s)) = take (i + 1) (pos s) ! i"
    using ok(2) by (simp add: last_conv_nth)
  then have lst: "last (take (i + 1) (pos s)) = js_get (pos s) i"
    using ok(3)[of i] by simp
  have "butlast (take (i + 1) (pos s)) = take i (pos s)"
    using ok(2) by (simp add: butlast_take)
  then show ?thesis
    using ok(1,2) lst assms(3) by (simp add: first_collision_def)
qed

text \<open>
  The radial infall from (10, 0, 0) with velocity (-40, 0, 0) into an attractor of
  radius 5, for a final time of 0.4: the body is outside at indices 0 and 1 and inside at
  index 2.
\<close>

theorem late_collision_truncates_witness:
  "\<exists>s. reaches_loop 0.4 \<lparr>x = 10, y = 0, z = 0\<rparr> \<lparr>x = - 40, y = 0, z = 0\<rparr>
      \<and> orbit_run 0.4 \<lparr>x = 10, y = 0, z = 0\<rparr> \<lparr>x = - 40, y = 0, z = 0\<rparr> 5 = Inr s
      \<and> first_collision 5 (pos s) 2
      \<and> (2::nat) \<le> 2 \<and> 2 + 2 \<le> nat \<bar>round (0.4 / timeStep)\<bar>
      \<and> calculateOrbit 0.4 \<lparr>x = 10, y = 0, z = 0\<rparr> \<lparr>x = - 40, y = 0, z = 0\<rparr> 5
        = (take 3 (pos s),
           energy_spec \<lparr>x = 10, y = 0, z = 0\<rparr> \<lparr>x = - 40, y = 0, z = 0\<rparr> 5)
      \<and> length (take 3 (pos s)) = 3
      \<and> last (take 3 (pos s)) = js_get (pos s) 2"
proof -
  let ?P = "\<lparr>x = 10, y = 0, z = 0\<rparr>" and ?V = "\<lparr>x = - 40, y = 0, z = 0\<rparr>"
  let ?GM = "4 * Num pi * Num pi"
  have reach: "reaches_loop 0.4 ?P ?V"
    unfolding reaches_loop_def points_of_time by simp
  obtain s where s: "orbit_run 0.4 ?P ?V 5 = Inr s"
    using orbit_run_total by blast
  have run: "planetRK2 4 0 5 ?GM (Num timeStep) (js_set (replicate 4 None) 0 0)
               (js_set (replicate 4 None) 0 ?P) (js_set (replicate 4 None) 0 ?V) 0 = Inr s"
    using s unfolding orbit_run_def Let_def points_of_time by simp
  obtain x1 v1 x2 where adv:
    "rk2_advance 5 ?GM (Num timeStep) ?P ?V = (\<lparr>x = Num x1, y = 0, z = 0\<rparr>, \<lparr>x = Num v1, y = 0, z = 0\<rparr>)"
    "fst (rk2_advance 5 ?GM (Num timeStep) \<lparr>x = Num x1, y = 0, z = 0\<rparr> \<lparr>x = Num v1, y = 0, z = 0\<rparr>)
     = \<lparr>x = Num x2, y = 0, z = 0\<rparr>"
    "5 \<le> x1" "\<bar>x2\<bar> < 5"
    by (rule infall_positions)
  have p0: "js_get (pos s) 0 = Some ?P" and v0: "js_get (vel s) 0 = Some ?V"
    using planetRK2_spec[OF run] by (simp_all add: js_get_set)
  have c0: "\<not> collides 5 (js_get (pos s) 0)"
    unfolding p0 collides_def by simp
  have "\<not> list_ex (collides 5) (take (0 + 1) (pos s))"
    unfolding list_ex_take_get using c0 by simp
  then have "stepped 5 ?GM (Num timeStep) s 0"
    using run_stepped_before[OF run, of 0] by simp
  then have p1: "js_get (pos s) (0 + 1) = Some \<lparr>x = Num x1, y = 0, z = 0\<rparr>"
    and v1: "js_get (vel s) (0 + 1) = Some \<lparr>x = Num v1, y = 0, z = 0\<rparr>"
    unfolding stepped_def p0 v0 using adv(1) by auto
  have c1: "\<not> collides 5 (js_get (pos s) (0 + 1))"
    unfolding p1 collides_def using adv(3) by simp
  have nc: "\<not> collides 5 (js_get (pos s) k)" if "k < 2" for k
  proof -
    from that consider "k = 0" | "k = 0 + 1" by linarith
    then show ?thesis
    proof cases
      case 1
      then show ?thesis using c0 by simp
    next
      case 2
      then show ?thesis using c1 by simp
    qed
  qed
  have "\<not> list_ex (collides 5) (take (1 + 1) (pos s))"
    unfolding list_ex_take_get using nc by simp
  then have "stepped 5 ?GM (Num timeStep) s 1"
    using run_stepped_before[OF run, of 1] by simp
  then have p2: "js_get (pos s) (1 + 1) = Some \<lparr>x = Num x2, y = 0, z = 0\<rparr>"
    unfolding stepped_def using p1 v1 adv(2) by auto
  have c2: "collides 5 (js_get (pos s) (1 + 1))"
    unfolding p2 collides_def using adv(4) by simp
  have fc: "first_collision 5 (pos s) 2"
    unfolding first_collision_def list_ex_take_get using nc c2
    by (simp add: numeral_2_eq_2)
  have i: "(2::nat) \<le> 2" by simp
  have n: "2 + 2 \<le> nat \<bar>round (0.4 / timeStep)\<bar>"
    unfolding points_of_time by simp
  show ?thesis
    using late_collision_truncates[OF reach s fc i n] reach s fc n
    by (intro exI[of _ s] conjI) simp_all
qed


end
